theory Spec2Isabelle
  imports Complex_Main "HOL-Library.Multiset"
begin

section \<open>Python values\<close>

text \<open>
  A Python \<open>str\<close> is a sequence of Unicode code points, so \<open>len\<close> counts code points:
  a string is modelled as the list of its code points. \<open>ustr\<close> embeds an ASCII literal.
\<close>

type_synonym ustring = "nat list"

definition ustr :: "string \<Rightarrow> ustring" where
  "ustr s = map of_char s"

text \<open>
  The values the program handles are the ones \<open>json\<close> decoding produces, and the floats its
  divisions produce. A float is represented by the rational number it denotes (signed
  zeros, infinities and NaN are not represented). A \<open>dict\<close> is the list of its bindings in
  insertion order; a lookup reads the first binding of a key.
\<close>

datatype pyval =
    PNone
  | PBool bool
  | PInt int
  | PFloat rat
  | PStr ustring
  | PList "pyval list"
  | PDict "(ustring \<times> pyval) list"

datatype py_error =
    KeyError | TypeError | AttributeError | OverflowError | ValueError | ClientError

text \<open>Sequencing of computations that may raise: the first exception wins.\<close>

definition bind_err :: "py_error + 'a \<Rightarrow> ('a \<Rightarrow> py_error + 'b) \<Rightarrow> py_error + 'b" where
  "bind_err m f = (case m of Inl e \<Rightarrow> Inl e | Inr v \<Rightarrow> f v)"

text \<open>Truth value testing (\<open>if x\<close>, \<open>not x\<close>, \<open>x or y\<close>).\<close>

fun py_truthy :: "pyval \<Rightarrow> bool" where
  "py_truthy PNone = False"
| "py_truthy (PBool b) = b"
| "py_truthy (PInt n) = (n \<noteq> 0)"
| "py_truthy (PFloat x) = (x \<noteq> 0)"
| "py_truthy (PStr s) = (s \<noteq> [])"
| "py_truthy (PList xs) = (xs \<noteq> [])"
| "py_truthy (PDict kvs) = (kvs \<noteq> [])"

definition py_or :: "pyval \<Rightarrow> pyval \<Rightarrow> pyval" where
  "py_or x y = (if py_truthy x then x else y)"

text \<open>\<open>d.get(k, default)\<close>: only a dict has the method.\<close>

fun py_get :: "pyval \<Rightarrow> ustring \<Rightarrow> pyval \<Rightarrow> py_error + pyval" where
  "py_get (PDict kvs) k dflt = Inr (case map_of kvs k of None \<Rightarrow> dflt | Some v \<Rightarrow> v)"
| "py_get _ k dflt = Inl AttributeError"

text \<open>\<open>d[k]\<close> with a string key: a missing key raises, a value that is not a dict raises.\<close>

fun py_getitem :: "pyval \<Rightarrow> ustring \<Rightarrow> py_error + pyval" where
  "py_getitem (PDict kvs) k = (case map_of kvs k of None \<Rightarrow> Inl KeyError | Some v \<Rightarrow> Inr v)"
| "py_getitem _ k = Inl TypeError"

text \<open>
  \<open>for x in v\<close>: a list yields its elements, a string its characters, a dict its keys;
  anything else is not iterable.
\<close>

fun py_iter :: "pyval \<Rightarrow> py_error + pyval list" where
  "py_iter (PList xs) = Inr xs"
| "py_iter (PStr s) = Inr (map (\<lambda>c. PStr [c]) s)"
| "py_iter (PDict kvs) = Inr (map (\<lambda>kv. PStr (fst kv)) kvs)"
| "py_iter _ = Inl TypeError"

subsection \<open>Floats\<close>

text \<open>
  \<open>x / y\<close> on integers yields the IEEE 754 double nearest to the quotient (ties to the
  even significand), and raises \<open>OverflowError\<close> when that is beyond the largest double.
  The rounding is computed on integers. \<open>bit_length\<close> is \<open>int.bit_length\<close> on a natural
  number; \<open>div_half_even a b\<close> is the integer nearest to \<open>a / b\<close> for \<open>b > 0\<close>; \<open>scaled n d s\<close>
  is the fraction \<open>n / (d * 2 ^ s)\<close> as a pair of integers.
\<close>

fun bit_length :: "nat \<Rightarrow> nat" where
  "bit_length n = (if n = 0 then 0 else Suc (bit_length (n div 2)))"

declare bit_length.simps [simp del]

definition div_half_even :: "int \<Rightarrow> int \<Rightarrow> int" where
  "div_half_even a b =
     (let q = a div b; r = a mod b
      in if 2 * r < b then q else if b < 2 * r then q + 1 else if even q then q else q + 1)"

definition scaled :: "int \<Rightarrow> int \<Rightarrow> int \<Rightarrow> int \<times> int" where
  "scaled n d s = (if 0 \<le> s then (n, d * 2 ^ nat s) else (n * 2 ^ nat (- s), d))"

text \<open>
  The binary exponent \<open>e\<close> of a positive fraction \<open>n / d\<close> satisfies
  \<open>2 ^ e \<le> n / d < 2 ^ (e + 1)\<close>. A double has 53 significant bits when its exponent is at
  least \<open>-1022\<close>, and the spacing \<open>2 ^ (-1074)\<close> below.
\<close>

definition binary_exponent :: "int \<Rightarrow> int \<Rightarrow> int" where
  "binary_exponent n d =
     (let k = int (bit_length (nat n)) - int (bit_length (nat d))
      in if snd (scaled n d k) \<le> fst (scaled n d k) then k else k - 1)"

text \<open>The double nearest to \<open>n / d\<close>, for \<open>d > 0\<close>; \<open>None\<close> when it is out of range.\<close>

definition round_double :: "int \<Rightarrow> int \<Rightarrow> rat option" where
  "round_double n d =
     (if n = 0 then Some 0
      else
        let a = \<bar>n\<bar>;
            s = max (binary_exponent a d) (- 1022) - 52;
            m = div_half_even (fst (scaled a d s)) (snd (scaled a d s))
        in if 0 \<le> s \<and> 2 ^ 1024 \<le> m * 2 ^ nat s then None
           else Some (of_int (sgn n * m) * 2 powi s))"

text \<open>
  \<open>v / 100\<close>: an integer, a boolean (an integer in Python) or a float divides; any other
  operand raises \<open>TypeError\<close>.
\<close>

definition float_div_100 :: "int \<Rightarrow> int \<Rightarrow> py_error + pyval" where
  "float_div_100 n d =
     (case round_double n (d * 100) of None \<Rightarrow> Inl OverflowError | Some r \<Rightarrow> Inr (PFloat r))"

fun py_truediv_100 :: "pyval \<Rightarrow> py_error + pyval" where
  "py_truediv_100 (PInt n) = float_div_100 n 1"
| "py_truediv_100 (PBool b) = float_div_100 (if b then 1 else 0) 1"
| "py_truediv_100 (PFloat x) = float_div_100 (fst (quotient_of x)) (snd (quotient_of x))"
| "py_truediv_100 _ = Inl TypeError"

subsection \<open>Sequences\<close>

text \<open>
  \<open>len(v)\<close> followed by the slice \<open>v[:k]\<close>: a list and a string are sequences (a string of
  its one-character strings); on any other value one of the two raises (for a dict the
  slice does, with an exception whose class depends on the version of Python; it is
  \<open>TypeError\<close> here).
\<close>

fun py_sequence :: "pyval \<Rightarrow> py_error + pyval list" where
  "py_sequence (PList xs) = Inr xs"
| "py_sequence (PStr s) = Inr (map (\<lambda>c. PStr [c]) s)"
| "py_sequence _ = Inl TypeError"

text \<open>\<open>xs[:n]\<close> on a list; a negative \<open>n\<close> counts from the end.\<close>

definition py_slice_to :: "'a list \<Rightarrow> int \<Rightarrow> 'a list" where
  "py_slice_to xs n = (if 0 \<le> n then take (nat n) xs else take (length xs - nat (- n)) xs)"

text \<open>\<open>str(n)\<close> for a natural number: its decimal digits.\<close>

fun py_str_nat :: "nat \<Rightarrow> ustring" where
  "py_str_nat n = (if n < 10 then [48 + n] else py_str_nat (n div 10) @ [48 + n mod 10])"

declare py_str_nat.simps [simp del]

subsection \<open>Strings\<close>

text \<open>\<open>str.isspace\<close> on one character: the code points CPython treats as whitespace.\<close>

definition py_isspace :: "nat \<Rightarrow> bool" where
  "py_isspace c =
     ((9 \<le> c \<and> c \<le> 13) \<or> (28 \<le> c \<and> c \<le> 32) \<or> c = 133 \<or> c = 160 \<or> c = 5760
      \<or> (8192 \<le> c \<and> c \<le> 8202) \<or> c = 8232 \<or> c = 8233 \<or> c = 8239 \<or> c = 8287
      \<or> c = 12288)"

text \<open>
  \<open>s.split()\<close> without arguments: the maximal runs of non-whitespace characters, in order;
  \<open>cur\<close> is the token being read.
\<close>

fun split_from :: "ustring \<Rightarrow> ustring \<Rightarrow> ustring list" where
  "split_from cur [] = (if cur = [] then [] else [cur])"
| "split_from cur (c # cs) =
     (if py_isspace c then (if cur = [] then split_from [] cs else cur # split_from [] cs)
      else split_from (cur @ [c]) cs)"

definition py_split :: "ustring \<Rightarrow> ustring list" where
  "py_split s = split_from [] s"

text \<open>\<open>sep.join(parts)\<close>.\<close>

fun py_join :: "ustring \<Rightarrow> ustring list \<Rightarrow> ustring" where
  "py_join sep [] = []"
| "py_join sep [p] = p"
| "py_join sep (p # q # ps) = p @ sep @ py_join sep (q # ps)"

text \<open>
  The case of a character comes from the Unicode character database of the Python
  runtime, which is not part of the program: it is a parameter \<open>cc\<close> of everything that
  calls \<open>str.isupper\<close>. \<open>s.isupper()\<close> holds when no character of \<open>s\<close> is lower-case or
  title-case and at least one is upper-case.
\<close>

datatype ucase = Upper | LowerOrTitle | Uncased

fun isupper_scan :: "(nat \<Rightarrow> ucase) \<Rightarrow> bool \<Rightarrow> ustring \<Rightarrow> bool" where
  "isupper_scan cc cased [] = cased"
| "isupper_scan cc cased (c # cs) =
     (case cc c of
        LowerOrTitle \<Rightarrow> False
      | Upper \<Rightarrow> isupper_scan cc True cs
      | Uncased \<Rightarrow> isupper_scan cc cased cs)"

definition py_isupper :: "(nat \<Rightarrow> ucase) \<Rightarrow> ustring \<Rightarrow> bool" where
  "py_isupper cc s = isupper_scan cc False s"

text \<open>
  A case table that agrees with Unicode on ASCII and on the Russian alphabet, for
  evaluating examples written in those characters.
\<close>

definition basic_case :: "nat \<Rightarrow> ucase" where
  "basic_case c =
     (if (65 \<le> c \<and> c \<le> 90) \<or> (1040 \<le> c \<and> c \<le> 1071) \<or> c = 1025 then Upper
      else if (97 \<le> c \<and> c \<le> 122) \<or> (1072 \<le> c \<and> c \<le> 1103) \<or> c = 1105 then LowerOrTitle
      else Uncased)"

section \<open>config.py\<close>

definition BRAND_ATTRIBUTE_ALIAS :: ustring where
  "BRAND_ATTRIBUTE_ALIAS = ustr ''brand''"

text \<open>The Russian word for brand, as code points U+0411 U+0440 U+0435 U+043D U+0434.\<close>

definition BRAND_ATTRIBUTE_NAME :: ustring where
  "BRAND_ATTRIBUTE_NAME = [1041, 1088, 1077, 1085, 1076]"

definition MIN_BRAND_LENGTH :: nat where
  "MIN_BRAND_LENGTH = 1"

definition PRODUCTS_PER_STORE :: int where
  "PRODUCTS_PER_STORE = 100"

definition REQUIRED_COLUMNS :: "ustring list" where
  "REQUIRED_COLUMNS =
     [ustr ''id'', ustr ''name'', ustr ''regular_price'', ustr ''promo_price'', ustr ''brand'']"

text \<open>
  The tables of the cities; the names of the two cities are written as code points.
  \<open>table[k]\<close> raises when the key is missing.
\<close>

definition CITIES :: "(ustring \<times> int) list" where
  "CITIES =
     [([1052, 1086, 1089, 1082, 1074, 1072], 1),
      ([1057, 1072, 1085, 1082, 1090, 45, 1055, 1077, 1090, 1077, 1088, 1073, 1091, 1088, 1075], 3)]"

definition STORE_IDS :: "(ustring \<times> int) list" where
  "STORE_IDS =
     [([1052, 1086, 1089, 1082, 1074, 1072], 104),
      ([1057, 1072, 1085, 1082, 1090, 45, 1055, 1077, 1090, 1077, 1088, 1073, 1091, 1088, 1075], 3135)]"

definition CATEGORY_BY_CITY :: "(ustring \<times> int) list" where
  "CATEGORY_BY_CITY =
     [([1052, 1086, 1089, 1082, 1074, 1072], 2),
      ([1057, 1072, 1085, 1082, 1090, 45, 1055, 1077, 1090, 1077, 1088, 1073, 1091, 1088, 1075], 2)]"

definition config_getitem :: "(ustring \<times> int) list \<Rightarrow> ustring \<Rightarrow> py_error + int" where
  "config_getitem table k = (case map_of table k of None \<Rightarrow> Inl KeyError | Some v \<Rightarrow> Inr v)"

section \<open>main.py: brand extraction\<close>

text \<open>
  The first loop of \<open>LentaAPI._extract_brand\<close>: the first attribute whose alias or name is
  the brand one decides, and its value (the empty string when it has none) is returned.
  \<open>None\<close> means the loop ended without returning.
\<close>

fun brand_from_attributes :: "pyval list \<Rightarrow> py_error + pyval option" where
  "brand_from_attributes [] = Inr None"
| "brand_from_attributes (attr # rest) =
     bind_err (py_get attr (ustr ''alias'') PNone) (\<lambda>alias.
       if alias = PStr BRAND_ATTRIBUTE_ALIAS
       then bind_err (py_get attr (ustr ''value'') (PStr [])) (\<lambda>v. Inr (Some v))
       else bind_err (py_get attr (ustr ''name'') PNone) (\<lambda>name.
         if name = PStr BRAND_ATTRIBUTE_NAME
         then bind_err (py_get attr (ustr ''value'') (PStr [])) (\<lambda>v. Inr (Some v))
         else brand_from_attributes rest))"

text \<open>The test on a name part: \<open>part.isupper() and len(part) > MIN_BRAND_LENGTH\<close>.\<close>

definition brand_part :: "(nat \<Rightarrow> ucase) \<Rightarrow> ustring \<Rightarrow> bool" where
  "brand_part cc part = (py_isupper cc part \<and> length part > MIN_BRAND_LENGTH)"

text \<open>The inner \<open>while\<close> loop: the parts that follow, as long as they pass the test.\<close>

fun brand_following :: "(nat \<Rightarrow> ucase) \<Rightarrow> ustring list \<Rightarrow> ustring list" where
  "brand_following cc [] = []"
| "brand_following cc (p # ps) = (if brand_part cc p then p # brand_following cc ps else [])"

text \<open>The outer \<open>for\<close> loop, left by \<open>break\<close> after the first part that passes the test.\<close>

fun brand_from_name :: "(nat \<Rightarrow> ucase) \<Rightarrow> ustring list \<Rightarrow> ustring list" where
  "brand_from_name cc [] = []"
| "brand_from_name cc (p # ps) =
     (if brand_part cc p then p # brand_following cc ps else brand_from_name cc ps)"

text \<open>\<open>str.split\<close> as a method call on any value: only a string has it.\<close>

fun py_split_method :: "pyval \<Rightarrow> py_error + ustring list" where
  "py_split_method (PStr s) = Inr (py_split s)"
| "py_split_method _ = Inl AttributeError"

definition LentaAPI_extract_brand :: "(nat \<Rightarrow> ucase) \<Rightarrow> pyval \<Rightarrow> py_error + pyval" where
  "LentaAPI_extract_brand cc item =
     bind_err (py_get item (ustr ''attributes'') (PList [])) (\<lambda>attributes.
     bind_err (py_iter attributes) (\<lambda>attrs.
     bind_err (brand_from_attributes attrs) (\<lambda>found.
       case found of
         Some v \<Rightarrow> Inr v
       | None \<Rightarrow>
           bind_err (py_get item (ustr ''name'') (PStr [])) (\<lambda>name.
           bind_err (py_split_method name) (\<lambda>name_parts.
             Inr (PStr (py_join (ustr '' '') (brand_from_name cc name_parts))))))))"

section \<open>oop_test.py: brand extraction\<close>

text \<open>The loop of \<open>ProductParser.extract_brand\<close>; a missing value is \<open>None\<close>.\<close>

fun detail_brand_from_attributes :: "pyval list \<Rightarrow> py_error + pyval" where
  "detail_brand_from_attributes [] = Inr PNone"
| "detail_brand_from_attributes (attr # rest) =
     bind_err (py_get attr (ustr ''alias'') PNone) (\<lambda>alias.
       if alias = PStr (ustr ''brand'')
       then py_get attr (ustr ''value'') PNone
       else bind_err (py_get attr (ustr ''name'') PNone) (\<lambda>name.
         if name = PStr [1041, 1088, 1077, 1085, 1076]
         then py_get attr (ustr ''value'') PNone
         else detail_brand_from_attributes rest))"

definition ProductParser_extract_brand :: "pyval \<Rightarrow> py_error + pyval" where
  "ProductParser_extract_brand item_detail =
     (if \<not> py_truthy item_detail then Inr PNone
      else bind_err (py_get item_detail (ustr ''attributes'') (PList [])) (\<lambda>attributes.
           bind_err (py_iter attributes) detail_brand_from_attributes))"

section \<open>main.py: collecting the products of a store\<close>

text \<open>
  The body of a listing request; the constant members of the request (the sort order, the
  out-of-stock flag, the region filter that repeats \<open>regionId\<close>) are left out.
\<close>

record payload =
  p_categoryId :: int
  p_limit :: int
  p_offset :: nat
  p_regionId :: pyval
  p_pickupStoreId :: pyval

text \<open>
  What \<open>session.post\<close> gives: it raises (a transport failure), or there is a response with
  a status, whose body decodes to a value or raises.
\<close>

datatype http_response = HttpResponse (status: int) (json: "py_error + pyval")

type_synonym listing = "payload \<Rightarrow> py_error + http_response"

text \<open>
  The variables of the loop, and the requests made so far, each with the number of items
  of the page it was answered with.
\<close>

record loop_state =
  collected :: "pyval list"
  offset :: nat
  trace :: "(payload \<times> nat) list"

datatype loop_step = Continue loop_state | Break loop_state | Return_empty int

datatype loop_outcome = Finished loop_state | Aborted int

text \<open>The request that an iteration starting in state \<open>s\<close> sends.\<close>

definition listing_request :: "pyval \<Rightarrow> int \<Rightarrow> int \<Rightarrow> loop_state \<Rightarrow> py_error + payload" where
  "listing_request store category_id total_needed s =
     (let current_limit = min PRODUCTS_PER_STORE (total_needed - int (length (collected s))) in
      bind_err (py_getitem store (ustr ''regionId'')) (\<lambda>region.
      bind_err (py_getitem store (ustr ''id'')) (\<lambda>store_id.
        Inr \<lparr>p_categoryId = category_id, p_limit = current_limit, p_offset = offset s,
             p_regionId = region, p_pickupStoreId = store_id\<rparr>)))"

text \<open>One pass through the body of \<open>while len(collected) < total_needed\<close>.\<close>

definition loop_body :: "listing \<Rightarrow> pyval \<Rightarrow> int \<Rightarrow> int \<Rightarrow> loop_state \<Rightarrow> py_error + loop_step" where
  "loop_body post store category_id total_needed s =
     bind_err (listing_request store category_id total_needed s) (\<lambda>request.
     bind_err (post request) (\<lambda>response.
       if status response \<noteq> 200 then Inr (Return_empty (status response))
       else
         bind_err (json response) (\<lambda>data.
         bind_err (py_get data (ustr ''items'') (PList [])) (\<lambda>items.
           if \<not> py_truthy items then Inr (Break (s\<lparr>trace := trace s @ [(request, 0)]\<rparr>))
           else
             bind_err (py_sequence items) (\<lambda>its.
               let remaining = total_needed - int (length (collected s));
                   items_to_add = py_slice_to its remaining;
                   s' = s\<lparr>collected := collected s @ items_to_add,
                          trace := trace s @ [(request, length its)]\<rparr>
               in if total_needed \<le> int (length (collected s'))
                  then Inr (Break s')
                  else Inr (Continue (s'\<lparr>offset := offset s + length its\<rparr>)))))))"

function collect_loop :: "listing \<Rightarrow> pyval \<Rightarrow> int \<Rightarrow> int \<Rightarrow> loop_state \<Rightarrow> py_error + loop_outcome" where
  "collect_loop post store category_id total_needed s =
     (if int (length (collected s)) < total_needed then
        (case loop_body post store category_id total_needed s of
           Inl e \<Rightarrow> Inl e
         | Inr (Return_empty st) \<Rightarrow> Inr (Aborted st)
         | Inr (Break s') \<Rightarrow> Inr (Finished s')
         | Inr (Continue s') \<Rightarrow> collect_loop post store category_id total_needed s')
      else Inr (Finished s))"
  by pat_completeness auto
termination
proof (relation "measure (\<lambda>(post, store, category_id, total_needed, s).
                   nat (total_needed - int (length (collected s))))")
  show "wf (measure (\<lambda>(post, store, category_id, total_needed, s).
                   nat (total_needed - int (length (collected s)))))"
    by simp
next
  fix post :: listing and store category_id total_needed s x s'
  assume below: "int (length (collected s)) < total_needed"
    and body: "loop_body post store category_id total_needed s = Inr x"
    and continue: "x = Continue s'"
  have nonempty: "its \<noteq> []" if "py_truthy v" and "py_sequence v = Inr its" for v its
    using that by (cases v) auto
  have "length (collected s) < length (collected s')"
    using body continue below nonempty
    by (auto simp: loop_body_def bind_err_def Let_def py_slice_to_def
        split: sum.splits if_splits)
  moreover have "int (length (collected s')) < total_needed"
    using body continue
    by (auto simp: loop_body_def bind_err_def Let_def split: sum.splits if_splits)
  ultimately show "((post, store, category_id, total_needed, s'),
                    (post, store, category_id, total_needed, s))
         \<in> measure (\<lambda>(post, store, category_id, total_needed, s).
                   nat (total_needed - int (length (collected s))))"
    by simp
qed

declare collect_loop.simps [simp del]

text \<open>One record of the result: the five keys, in this order.\<close>

definition format_product :: "(nat \<Rightarrow> ucase) \<Rightarrow> pyval \<Rightarrow> py_error + pyval" where
  "format_product cc item =
     bind_err (py_getitem item (ustr ''id'')) (\<lambda>item_id.
     bind_err (py_get item (ustr ''name'') (PStr [])) (\<lambda>name.
     bind_err (py_getitem item (ustr ''prices'')) (\<lambda>prices.
     bind_err (py_getitem prices (ustr ''priceRegular'')) (\<lambda>price_regular.
     bind_err (py_truediv_100 price_regular) (\<lambda>regular_price.
     bind_err (py_getitem item (ustr ''prices'')) (\<lambda>prices.
     bind_err (py_getitem prices (ustr ''price'')) (\<lambda>price.
     bind_err (py_truediv_100 price) (\<lambda>promo_price.
     bind_err (LentaAPI_extract_brand cc item) (\<lambda>brand.
       Inr (PDict [(ustr ''id'', item_id), (ustr ''name'', name),
                   (ustr ''regular_price'', regular_price),
                   (ustr ''promo_price'', promo_price),
                   (ustr ''brand'', brand)]))))))))))"

fun format_products :: "(nat \<Rightarrow> ucase) \<Rightarrow> pyval list \<Rightarrow> py_error + pyval list" where
  "format_products cc [] = Inr []"
| "format_products cc (item # items) =
     bind_err (format_product cc item) (\<lambda>r.
     bind_err (format_products cc items) (\<lambda>rs. Inr (r # rs)))"

definition initial_state :: loop_state where
  "initial_state = \<lparr>collected = [], offset = 0, trace = []\<rparr>"

definition LentaAPI_get_products ::
    "(nat \<Rightarrow> ucase) \<Rightarrow> listing \<Rightarrow> pyval \<Rightarrow> int \<Rightarrow> int \<Rightarrow> py_error + pyval list" where
  "LentaAPI_get_products cc post store category_id total_needed =
     (if \<not> py_truthy store then Inr []
      else
        bind_err (py_getitem store (ustr ''id'')) (\<lambda>store_id.
        bind_err (py_getitem store (ustr ''title'')) (\<lambda>title.
        bind_err (collect_loop post store category_id total_needed initial_state) (\<lambda>out.
          case out of
            Aborted st \<Rightarrow> Inr []
          | Finished s \<Rightarrow> format_products cc (py_slice_to (collected s) total_needed)))))"

text \<open>The calls of \<open>logger.error\<close> that \<open>get_products\<close> makes on the same run.\<close>

datatype log_entry = No_store_information | Status_error int pyval | City_error py_error

definition LentaAPI_get_products_errors :: "listing \<Rightarrow> pyval \<Rightarrow> int \<Rightarrow> int \<Rightarrow> log_entry list" where
  "LentaAPI_get_products_errors post store category_id total_needed =
     (if \<not> py_truthy store then [No_store_information]
      else
        case py_getitem store (ustr ''id'') of
          Inl e \<Rightarrow> []
        | Inr store_id \<Rightarrow>
            (case py_getitem store (ustr ''title'') of
               Inl e \<Rightarrow> []
             | Inr title \<Rightarrow>
                 (case collect_loop post store category_id total_needed initial_state of
                    Inr (Aborted st) \<Rightarrow> [Status_error st store_id]
                  | _ \<Rightarrow> [])))"

section \<open>main.py: writing the result, and the run over the cities\<close>

text \<open>
  What \<open>csv.DictWriter\<close> makes of one row: a key outside the field names raises, a missing
  field is the empty string; the cells are the values before their conversion to text.
\<close>

fun dict_to_list :: "ustring list \<Rightarrow> pyval \<Rightarrow> py_error + pyval list" where
  "dict_to_list fieldnames (PDict kvs) =
     (if list_ex (\<lambda>kv. fst kv \<notin> set fieldnames) kvs then Inl ValueError
      else Inr (map (\<lambda>k. case map_of kvs k of None \<Rightarrow> PStr [] | Some v \<Rightarrow> v) fieldnames))"
| "dict_to_list fieldnames _ = Inl AttributeError"

text \<open>
  \<open>writerows\<close>: the rows are written one after the other, so that an exception leaves the
  rows before it in the file.
\<close>

fun writerows :: "ustring list \<Rightarrow> pyval list \<Rightarrow> pyval list list \<times> py_error option" where
  "writerows fieldnames [] = ([], None)"
| "writerows fieldnames (row # rows) =
     (case dict_to_list fieldnames row of
        Inl e \<Rightarrow> ([], Some e)
      | Inr cells \<Rightarrow> (cells # fst (writerows fieldnames rows), snd (writerows fieldnames rows)))"

text \<open>
  \<open>CSVWriter.write_products\<close>: the lines of the file (the header first), and the exception
  raised, if any. The name of the file and the conversion of the cells to text play no
  part in what follows.
\<close>

definition CSVWriter_write_products :: "pyval list \<Rightarrow> pyval list list \<times> py_error option" where
  "CSVWriter_write_products products =
     (map PStr REQUIRED_COLUMNS # fst (writerows REQUIRED_COLUMNS (take 100 products)),
      snd (writerows REQUIRED_COLUMNS (take 100 products)))"

definition py_str_int :: "int \<Rightarrow> ustring" where
  "py_str_int n = (if n < 0 then 45 # py_str_nat (nat (- n)) else py_str_nat (nat n))"

text \<open>\<open>LentaAPI.get_store\<close>; the title is the Russian for "Lenta store", the city and the id.\<close>

definition LentaAPI_get_store :: "ustring \<Rightarrow> py_error + pyval" where
  "LentaAPI_get_store city =
     bind_err (config_getitem STORE_IDS city) (\<lambda>store_id.
     bind_err (config_getitem CITIES city) (\<lambda>region_id.
       Inr (PDict [(ustr ''id'', PInt store_id),
                   (ustr ''regionId'', PInt region_id),
                   (ustr ''title'',
                      PStr ([1052, 1072, 1075, 1072, 1079, 1080, 1085, 32,
                             1051, 1077, 1085, 1090, 1072, 32]
                            @ city @ ustr '' (ID: '' @ py_str_int store_id @ ustr '')''))])))"

text \<open>
  One pass of the loop of \<open>main\<close> over the cities: the file written for the city, if one
  is, and the errors logged. Any exception is caught and logged, and the loop goes on.
\<close>

definition main_city ::
    "(nat \<Rightarrow> ucase) \<Rightarrow> listing \<Rightarrow> ustring \<Rightarrow> pyval list list option \<times> log_entry list" where
  "main_city cc post city =
     (case LentaAPI_get_store city of
        Inl e \<Rightarrow> (None, [City_error e])
      | Inr store \<Rightarrow>
          (case config_getitem CATEGORY_BY_CITY city of
             Inl e \<Rightarrow> (None, [City_error e])
           | Inr category_id \<Rightarrow>
               (case LentaAPI_get_products cc post store category_id PRODUCTS_PER_STORE of
                  Inl e \<Rightarrow>
                    (None,
                     LentaAPI_get_products_errors post store category_id PRODUCTS_PER_STORE
                     @ [City_error e])
                | Inr products \<Rightarrow>
                    (Some (fst (CSVWriter_write_products products)),
                     LentaAPI_get_products_errors post store category_id PRODUCTS_PER_STORE
                     @ (case snd (CSVWriter_write_products products) of
                          None \<Rightarrow> []
                        | Some e \<Rightarrow> [City_error e])))))"

definition main :: "(nat \<Rightarrow> ucase) \<Rightarrow> listing \<Rightarrow> (pyval list list option \<times> log_entry list) list" where
  "main cc post = map (\<lambda>city. main_city cc post city) (map fst CITIES)"

section \<open>oop_test.py: the pipeline with one detail request per product\<close>

text \<open>
  The dataclass \<open>Product\<close>; its fields \<open>id\<close> and \<open>name\<close> are \<open>product_id\<close> and \<open>product_name\<close>
  here, \<open>id\<close> being a constant of HOL.
\<close>

record Product =
  product_id :: pyval
  product_name :: pyval
  regular_price :: pyval
  promo_price :: pyval
  brand :: pyval

text \<open>
  The detail request (the GET, \<open>raise_for_status\<close> and the decoding of the body) raises or
  gives the decoded body. \<open>LentaAPI.get_product_details\<close> turns an exception into \<open>None\<close>.
\<close>

type_synonym detail_request = "pyval \<Rightarrow> py_error + pyval"

definition LentaAPI_get_product_details :: "detail_request \<Rightarrow> pyval \<Rightarrow> pyval" where
  "LentaAPI_get_product_details fetch pid = (case fetch pid of Inl e \<Rightarrow> PNone | Inr v \<Rightarrow> v)"

text \<open>The conversion of a price that is not \<open>None\<close>.\<close>

definition price_in_roubles :: "pyval \<Rightarrow> py_error + pyval" where
  "price_in_roubles p = (if p \<noteq> PNone then py_truediv_100 p else Inr PNone)"

text \<open>The body of the \<open>try\<close> of \<open>ProductParser.parse_product\<close>.\<close>

definition parse_product_body :: "detail_request \<Rightarrow> pyval \<Rightarrow> py_error + Product option" where
  "parse_product_body fetch product_data =
     bind_err (py_get product_data (ustr ''prices'') (PDict [])) (\<lambda>prices.
     bind_err (py_get prices (ustr ''priceRegular'') PNone) (\<lambda>price_regular.
     bind_err (price_in_roubles price_regular) (\<lambda>regular.
     bind_err (py_get prices (ustr ''price'') PNone) (\<lambda>price.
     bind_err (price_in_roubles price) (\<lambda>promo.
     bind_err (py_get product_data (ustr ''id'') PNone) (\<lambda>pid.
       if \<not> py_truthy pid then Inr None
       else
         bind_err (ProductParser_extract_brand (LentaAPI_get_product_details fetch pid)) (\<lambda>b.
         bind_err (py_get product_data (ustr ''name'') (PStr [])) (\<lambda>name.
           Inr (Some \<lparr>product_id = pid, product_name = name,
                      regular_price = py_or regular (PFloat 0),
                      promo_price = py_or promo (PFloat 0),
                      brand = py_or b (PStr [])\<rparr>)))))))))"

definition ProductParser_parse_product :: "detail_request \<Rightarrow> pyval \<Rightarrow> Product option" where
  "ProductParser_parse_product fetch product_data =
     (case parse_product_body fetch product_data of Inl e \<Rightarrow> None | Inr r \<Rightarrow> r)"

text \<open>
  \<open>process_products_parallel\<close>: one task per product; \<open>as_completed\<close> yields every task once,
  in an order that the scheduling decides. \<open>order\<close> is that order, as the positions of the
  products in the input: a permutation of \<open>[0..<length products]\<close>. A result that is a
  \<open>Product\<close> is always true, so it is appended. The number of workers (at least one) has no
  part in the result.
\<close>

definition process_products_parallel :: "detail_request \<Rightarrow> nat list \<Rightarrow> pyval list \<Rightarrow> Product list" where
  "process_products_parallel fetch order products =
     List.map_filter (\<lambda>i. ProductParser_parse_product fetch (products ! i)) order"



section \<open>Runs of the collecting loop\<close>

text \<open>
  \<open>reaches post store category_id total_needed s s'\<close>: the loop started in \<open>s\<close> comes to the
  head of an iteration in state \<open>s'\<close>.
\<close>

inductive reaches :: "listing \<Rightarrow> pyval \<Rightarrow> int \<Rightarrow> int \<Rightarrow> loop_state \<Rightarrow> loop_state \<Rightarrow> bool"
  for post store category_id total_needed
where
  reaches_start: "reaches post store category_id total_needed s s"
| reaches_next:
    "reaches post store category_id total_needed s s1 \<Longrightarrow>
     int (length (collected s1)) < total_needed \<Longrightarrow>
     loop_body post store category_id total_needed s1 = Inr (Continue s2) \<Longrightarrow>
     reaches post store category_id total_needed s s2"

text \<open>
  The requests of a trace are the ones pagination asks for, when \<open>c\<close> items are collected
  and the offset is \<open>off\<close> before the first of them: each asks for the page size or for
  what is still needed, whichever is smaller, at the offset that is the number of items
  the source returned before.
\<close>

fun requests_paginate :: "int \<Rightarrow> nat \<Rightarrow> nat \<Rightarrow> (payload \<times> nat) list \<Rightarrow> bool" where
  "requests_paginate total_needed c off [] = True"
| "requests_paginate total_needed c off (r # rest) =
     (p_limit (fst r) = min PRODUCTS_PER_STORE (total_needed - int c)
      \<and> p_offset (fst r) = off
      \<and> requests_paginate total_needed (c + snd r) (off + snd r) rest)"

text \<open>The state in which the loop was left, when it was left at its end or by \<open>break\<close>.\<close>

fun finished_state :: "py_error + loop_outcome \<Rightarrow> loop_state option" where
  "finished_state (Inr (Finished s)) = Some s"
| "finished_state _ = None"

text \<open>
  A source for examples: six items in pages of three (whatever limit is asked for), then
  empty pages; and the store of the second city of config.py.
\<close>

definition example_item :: "int \<Rightarrow> pyval" where
  "example_item n =
     PDict [(ustr ''id'', PInt n), (ustr ''name'', PStr (ustr ''COCA COLA Light'')),
            (ustr ''prices'', PDict [(ustr ''priceRegular'', PInt 12999), (ustr ''price'', PInt 9900)]),
            (ustr ''attributes'', PList [])]"

definition example_page :: "nat \<Rightarrow> pyval list" where
  "example_page off =
     (if off = 0 then [example_item 1, example_item 2, example_item 3]
      else if off = 3 then [example_item 4, example_item 5, example_item 6]
      else [])"

definition example_listing :: listing where
  "example_listing request =
     Inr (HttpResponse 200 (Inr (PDict [(ustr ''items'', PList (example_page (p_offset request)))])))"

definition example_store :: pyval where
  "example_store =
     PDict [(ustr ''id'', PInt 3135), (ustr ''regionId'', PInt 3), (ustr ''title'', PStr (ustr ''Lenta''))]"

text \<open>The example source, answering every request after the first page with a failure.\<close>

definition example_failing_listing :: "py_error + http_response \<Rightarrow> listing" where
  "example_failing_listing failure request =
     (if p_offset request = 0 then example_listing request else failure)"

text \<open>
  A detail source for examples: the request for product 7 fails, any other one gives a
  detail whose brand attribute is Pepsi.
\<close>

definition example_detail_request :: detail_request where
  "example_detail_request pid =
     (if pid = PInt 7 then Inl ClientError
      else Inr (PDict [(ustr ''attributes'',
                        PList [PDict [(ustr ''alias'', PStr (ustr ''brand'')),
                                      (ustr ''value'', PStr (ustr ''Pepsi''))]])]))"



section \<open>Attributes, records and well-formed products\<close>

text \<open>
  The test both extraction loops make on an attribute that is a dict: its alias is the
  brand alias, or its name is the brand name.
\<close>

definition is_brand_attribute :: "(ustring \<times> pyval) list \<Rightarrow> bool" where
  "is_brand_attribute d =
     (map_of d (ustr ''alias'') = Some (PStr BRAND_ATTRIBUTE_ALIAS)
      \<or> map_of d (ustr ''name'') = Some (PStr BRAND_ATTRIBUTE_NAME))"



text \<open>
  The products that \<open>parse_product\<close> makes a record of. \<open>has_identifier\<close>: the product is a
  dict whose id is true. \<open>price_converts\<close>: a price is \<open>None\<close>, or a number whose hundredth
  is in the range of the doubles. \<open>prices_convert\<close>: the product is a dict whose prices are
  missing, or a dict whose regular and promotional prices convert when present.
  \<open>attributes_scan\<close>: no attribute that is not a dict comes before the first brand attribute,
  or before the end when there is none. \<open>detail_scans\<close>: the detail is false, or a dict
  whose attributes, when present, can be iterated over and scan. \<open>well_formed\<close>: the prices
  convert and what \<open>get_product_details\<close> gives for the id scans.
\<close>

fun has_identifier :: "pyval \<Rightarrow> bool" where
  "has_identifier (PDict kvs) =
     (case map_of kvs (ustr ''id'') of None \<Rightarrow> False | Some pid \<Rightarrow> py_truthy pid)"
| "has_identifier _ = False"

fun price_converts :: "pyval \<Rightarrow> bool" where
  "price_converts PNone = True"
| "price_converts (PInt n) = (round_double n 100 \<noteq> None)"
| "price_converts (PBool b) = (round_double (if b then 1 else 0) 100 \<noteq> None)"
| "price_converts (PFloat x) =
     (round_double (fst (quotient_of x)) (snd (quotient_of x) * 100) \<noteq> None)"
| "price_converts _ = False"

fun price_block_converts :: "pyval \<Rightarrow> bool" where
  "price_block_converts (PDict ps) =
     (price_converts (case map_of ps (ustr ''priceRegular'') of None \<Rightarrow> PNone | Some v \<Rightarrow> v)
      \<and> price_converts (case map_of ps (ustr ''price'') of None \<Rightarrow> PNone | Some v \<Rightarrow> v))"
| "price_block_converts _ = False"

fun prices_convert :: "pyval \<Rightarrow> bool" where
  "prices_convert (PDict kvs) =
     price_block_converts (case map_of kvs (ustr ''prices'') of None \<Rightarrow> PDict [] | Some v \<Rightarrow> v)"
| "prices_convert _ = False"

fun attributes_scan :: "pyval list \<Rightarrow> bool" where
  "attributes_scan [] = True"
| "attributes_scan (PDict d # rest) = (is_brand_attribute d \<or> attributes_scan rest)"
| "attributes_scan (_ # rest) = False"

fun detail_scans :: "pyval \<Rightarrow> bool" where
  "detail_scans (PDict kvs) =
     (kvs = []
      \<or> (case py_iter (case map_of kvs (ustr ''attributes'') of
                         None \<Rightarrow> PList [] | Some a \<Rightarrow> a) of
           Inl e \<Rightarrow> False
         | Inr attrs \<Rightarrow> attributes_scan attrs))"
| "detail_scans detail = (\<not> py_truthy detail)"

fun well_formed :: "detail_request \<Rightarrow> pyval \<Rightarrow> bool" where
  "well_formed fetch (PDict kvs) =
     (prices_convert (PDict kvs)
      \<and> (case map_of kvs (ustr ''id'') of
           None \<Rightarrow> True
         | Some pid \<Rightarrow> detail_scans (LentaAPI_get_product_details fetch pid)))"
| "well_formed fetch _ = False"

section \<open>Properties of the brand extraction\<close>

lemma brand_following_takeWhile: "brand_following cc ps = takeWhile (brand_part cc) ps"
  by (induction ps) auto

lemma brand_from_name_run:
  "brand_from_name cc ps = takeWhile (brand_part cc) (dropWhile (\<lambda>p. \<not> brand_part cc p) ps)"
  by (induction ps) (auto simp: brand_following_takeWhile)

lemma brand_from_name_none:
  "list_all (\<lambda>p. \<not> brand_part cc p) ps \<Longrightarrow> brand_from_name cc ps = []"
  by (induction ps) auto

lemma brand_from_attributes_hit:
  "is_brand_attribute a \<Longrightarrow>
   brand_from_attributes (PDict a # rest) =
     Inr (Some (case map_of a (ustr ''value'') of None \<Rightarrow> PStr [] | Some v \<Rightarrow> v))"
  by (auto simp: is_brand_attribute_def bind_err_def split: option.splits)

lemma brand_from_attributes_miss:
  "\<not> is_brand_attribute d \<Longrightarrow> brand_from_attributes (PDict d # rest) = brand_from_attributes rest"
  by (auto simp: is_brand_attribute_def bind_err_def split: option.splits)

lemma brand_from_attributes_skip:
  "list_all (\<lambda>d. \<not> is_brand_attribute d) pre \<Longrightarrow>
   brand_from_attributes (map PDict pre @ xs) = brand_from_attributes xs"
  by (induction pre) (simp_all add: brand_from_attributes_miss del: brand_from_attributes.simps)

lemma brand_from_attributes_none:
  "list_all (\<lambda>d. \<not> is_brand_attribute d) ds \<Longrightarrow>
   brand_from_attributes (map PDict ds) = Inr None"
  using brand_from_attributes_skip [of ds "[]"] by simp

lemma detail_brand_from_attributes_hit:
  "is_brand_attribute a \<Longrightarrow>
   detail_brand_from_attributes (PDict a # rest) =
     Inr (case map_of a (ustr ''value'') of None \<Rightarrow> PNone | Some v \<Rightarrow> v)"
  by (auto simp: is_brand_attribute_def bind_err_def BRAND_ATTRIBUTE_ALIAS_def
      BRAND_ATTRIBUTE_NAME_def split: option.splits)

lemma detail_brand_from_attributes_miss:
  "\<not> is_brand_attribute d \<Longrightarrow>
   detail_brand_from_attributes (PDict d # rest) = detail_brand_from_attributes rest"
  by (auto simp: is_brand_attribute_def bind_err_def BRAND_ATTRIBUTE_ALIAS_def
      BRAND_ATTRIBUTE_NAME_def split: option.splits)

lemma detail_brand_from_attributes_skip:
  "list_all (\<lambda>d. \<not> is_brand_attribute d) pre \<Longrightarrow>
   detail_brand_from_attributes (map PDict pre @ xs) = detail_brand_from_attributes xs"
  by (induction pre)
     (simp_all add: detail_brand_from_attributes_miss del: detail_brand_from_attributes.simps)

lemma detail_brand_from_attributes_none:
  "list_all (\<lambda>d. \<not> is_brand_attribute d) ds \<Longrightarrow>
   detail_brand_from_attributes (map PDict ds) = Inr PNone"
  using detail_brand_from_attributes_skip [of ds "[]"] by simp

text \<open>
  What \<open>split\<close> returns are tokens: none is empty and none holds a whitespace character.
\<close>

lemma split_from_tokens:
  "list_all (\<lambda>c. \<not> py_isspace c) cur \<Longrightarrow>
   list_all (\<lambda>t. t \<noteq> [] \<and> list_all (\<lambda>c. \<not> py_isspace c) t) (split_from cur s)"
  by (induction s arbitrary: cur) auto

lemma py_split_tokens:
  "list_all (\<lambda>t. t \<noteq> [] \<and> list_all (\<lambda>c. \<not> py_isspace c) t) (py_split s)"
  unfolding py_split_def by (rule split_from_tokens) simp

text \<open>
  \<open>split\<close> is determined by three equations: the empty string has no token, a non-empty
  string without whitespace is its own token, and a whitespace character separates the
  tokens before it from the tokens after it.
\<close>

lemma split_from_separator:
  "py_isspace c \<Longrightarrow> split_from cur (a @ c # b) = split_from cur a @ split_from [] b"
  by (induction a arbitrary: cur) auto

lemma split_from_token:
  "list_all (\<lambda>c. \<not> py_isspace c) t \<Longrightarrow>
   split_from cur t = (if cur @ t = [] then [] else [cur @ t])"
  by (induction t arbitrary: cur) auto

text \<open>
  \<open>isupper\<close>: no character is lower-case or title-case, and one at least is upper-case.
\<close>

lemma isupper_scan_iff:
  "isupper_scan cc cased s
     \<longleftrightarrow> list_all (\<lambda>c. cc c \<noteq> LowerOrTitle) s \<and> (cased \<or> list_ex (\<lambda>c. cc c = Upper) s)"
  by (induction s arbitrary: cased) (auto split: ucase.splits)

text \<open>
  C3. When the attribute list of an item holds an attribute whose alias is the brand alias
  or whose name is the brand name, the extraction of either pipeline returns the value of
  the first such attribute, whatever the name of the item is (the name may even be
  missing or not a string). The attributes before the first match are dicts that do not
  match; what follows it is arbitrary.
\<close>

theorem extract_brand_first_attribute:
  assumes "map_of kvs (ustr ''attributes'') = Some (PList (map PDict pre @ PDict a # rest))"
    and "list_all (\<lambda>d. \<not> is_brand_attribute d) pre"
    and "is_brand_attribute a"
    and "map_of a (ustr ''value'') = Some v"
  shows "LentaAPI_extract_brand cc (PDict kvs) = Inr v
       \<and> ProductParser_extract_brand (PDict kvs) = Inr v"
proof -
  have "kvs \<noteq> []" using assms(1) by auto
  moreover have "brand_from_attributes (map PDict pre @ PDict a # rest) = Inr (Some v)"
    using assms by (simp add: brand_from_attributes_skip brand_from_attributes_hit
        del: brand_from_attributes.simps)
  moreover have "detail_brand_from_attributes (map PDict pre @ PDict a # rest) = Inr v"
    using assms by (simp add: detail_brand_from_attributes_skip detail_brand_from_attributes_hit
        del: detail_brand_from_attributes.simps)
  ultimately show ?thesis
    using assms(1)
    by (simp add: LentaAPI_extract_brand_def ProductParser_extract_brand_def bind_err_def)
qed

text \<open>The item of the specification: the brand attribute wins over the name PEPSI MAX.\<close>

theorem extract_brand_first_attribute_witness:
  "LentaAPI_extract_brand basic_case
     (PDict [(ustr ''id'', PInt 2),
             (ustr ''attributes'',
                PList [PDict [(ustr ''alias'', PStr (ustr ''brand'')),
                              (ustr ''value'', PStr (ustr ''Pepsi''))]]),
             (ustr ''name'', PStr (ustr ''PEPSI MAX''))]) = Inr (PStr (ustr ''Pepsi''))
   \<and> ProductParser_extract_brand
     (PDict [(ustr ''id'', PInt 2),
             (ustr ''attributes'',
                PList [PDict [(ustr ''alias'', PStr (ustr ''brand'')),
                              (ustr ''value'', PStr (ustr ''Pepsi''))]]),
             (ustr ''name'', PStr (ustr ''PEPSI MAX''))]) = Inr (PStr (ustr ''Pepsi''))"
  using extract_brand_first_attribute
    [of "[(ustr ''id'', PInt 2),
          (ustr ''attributes'',
             PList [PDict [(ustr ''alias'', PStr (ustr ''brand'')),
                           (ustr ''value'', PStr (ustr ''Pepsi''))]]),
          (ustr ''name'', PStr (ustr ''PEPSI MAX''))]"
        "[]"
        "[(ustr ''alias'', PStr (ustr ''brand'')), (ustr ''value'', PStr (ustr ''Pepsi''))]"
        "[]" "PStr (ustr ''Pepsi'')" basic_case]
  by (simp add: is_brand_attribute_def BRAND_ATTRIBUTE_ALIAS_def ustr_def)

text \<open>
  C4, as the specification states it, fails on items that have no brand attribute: the
  extraction is not total on them. When the name is \<open>null\<close>, \<open>item.get("name", "")\<close> is
  \<open>None\<close> and \<open>split\<close> raises \<open>AttributeError\<close>; when the attributes are \<open>null\<close>, the loop over
  them raises \<open>TypeError\<close>; when an attribute is not a dict, \<open>attr.get\<close> raises
  \<open>AttributeError\<close>.
\<close>

theorem extract_brand_null_name_counterexample:
  "LentaAPI_extract_brand basic_case
     (PDict [(ustr ''id'', PInt 1), (ustr ''name'', PNone), (ustr ''attributes'', PList [])])
     = Inl AttributeError
   \<and> LentaAPI_extract_brand basic_case
       (PDict [(ustr ''id'', PInt 1), (ustr ''name'', PStr (ustr ''COCA COLA Light'')),
               (ustr ''attributes'', PNone)])
     = Inl TypeError
   \<and> LentaAPI_extract_brand basic_case
       (PDict [(ustr ''id'', PInt 1), (ustr ''name'', PStr (ustr ''COCA COLA Light'')),
               (ustr ''attributes'', PList [PNone])])
     = Inl AttributeError"
  by (simp add: LentaAPI_extract_brand_def bind_err_def ustr_def)

text \<open>
  C4, amended. Take an item without a brand attribute whose attributes are missing or
  iterate over dicts none of which matches (a list of such dicts, possibly empty). When its
  name is a string or missing, the extraction of main.py does not raise and returns the
  first maximal run of name tokens that are upper-case in the sense of \<open>str.isupper\<close> and
  longer than the minimum length, joined by single spaces: the tokens before the first
  qualifying one are dropped, the run ends at the first token that does not qualify, and
  nothing after it is looked at. When no token qualifies, as for an empty name, the result
  is the empty string. When its name is present and is not a string (\<open>null\<close>, a number),
  the extraction raises \<open>AttributeError\<close>. The tokens are the maximal runs of characters
  that are not whitespace: the empty string has none, a non-empty string without whitespace
  is its own token, and a whitespace character separates the tokens on its two sides. A
  token is upper-case when none of its characters is lower-case or title-case and one at
  least is upper-case (so that \<open>A1\<close> is).
\<close>

theorem extract_brand_name_heuristic:
  assumes "py_iter (case map_of kvs (ustr ''attributes'') of None \<Rightarrow> PList [] | Some a \<Rightarrow> a)
             = Inr (map PDict ds)"
    and "list_all (\<lambda>d. \<not> is_brand_attribute d) ds"
  shows "(map_of kvs (ustr ''name'') = Some (PStr s)
            \<or> (map_of kvs (ustr ''name'') = None \<and> s = [])
          \<longrightarrow> LentaAPI_extract_brand cc (PDict kvs)
                = Inr (PStr (py_join (ustr '' '')
                    (takeWhile (\<lambda>t. py_isupper cc t \<and> MIN_BRAND_LENGTH < length t)
                       (dropWhile (\<lambda>t. \<not> (py_isupper cc t \<and> MIN_BRAND_LENGTH < length t))
                          (py_split s)))))
              \<and> (list_all (\<lambda>t. \<not> (py_isupper cc t \<and> MIN_BRAND_LENGTH < length t)) (py_split s)
                 \<longrightarrow> LentaAPI_extract_brand cc (PDict kvs) = Inr (PStr [])))
       \<and> (map_of kvs (ustr ''name'') = Some v \<and> (case v of PStr n \<Rightarrow> False | _ \<Rightarrow> True)
          \<longrightarrow> LentaAPI_extract_brand cc (PDict kvs) = Inl AttributeError)
       \<and> py_split [] = []
       \<and> (tok \<noteq> [] \<and> list_all (\<lambda>c. \<not> py_isspace c) tok \<longrightarrow> py_split tok = [tok])
       \<and> (py_isspace c \<longrightarrow> py_split (a @ c # b) = py_split a @ py_split b)
       \<and> (py_isupper cc w
          \<longleftrightarrow> list_all (\<lambda>c. cc c \<noteq> LowerOrTitle) w \<and> list_ex (\<lambda>c. cc c = Upper) w)"
proof -
  have attrs: "bind_err (py_get (PDict kvs) (ustr ''attributes'') (PList []))
                 (\<lambda>attributes. bind_err (py_iter attributes)
                    (\<lambda>attrs. bind_err (brand_from_attributes attrs) f)) = f None"
    for f :: "pyval option \<Rightarrow> py_error + pyval"
    using assms by (simp add: bind_err_def brand_from_attributes_none)
  have r: "LentaAPI_extract_brand cc (PDict kvs) =
             bind_err (py_split_method
                         (case map_of kvs (ustr ''name'') of None \<Rightarrow> PStr [] | Some v \<Rightarrow> v))
               (\<lambda>name_parts. Inr (PStr (py_join (ustr '' '') (brand_from_name cc name_parts))))"
    unfolding LentaAPI_extract_brand_def attrs by (simp add: bind_err_def)
  have test: "brand_part cc = (\<lambda>t. py_isupper cc t \<and> MIN_BRAND_LENGTH < length t)"
    by (simp add: brand_part_def fun_eq_iff)
  have run: "LentaAPI_extract_brand cc (PDict kvs)
                = Inr (PStr (py_join (ustr '' '')
                    (takeWhile (\<lambda>t. py_isupper cc t \<and> MIN_BRAND_LENGTH < length t)
                       (dropWhile (\<lambda>t. \<not> (py_isupper cc t \<and> MIN_BRAND_LENGTH < length t))
                          (py_split s)))))
              \<and> (list_all (\<lambda>t. \<not> (py_isupper cc t \<and> MIN_BRAND_LENGTH < length t)) (py_split s)
                 \<longrightarrow> LentaAPI_extract_brand cc (PDict kvs) = Inr (PStr []))"
    if "map_of kvs (ustr ''name'') = Some (PStr s)
          \<or> (map_of kvs (ustr ''name'') = None \<and> s = [])"
  proof -
    from that have "LentaAPI_extract_brand cc (PDict kvs)
                      = Inr (PStr (py_join (ustr '' '') (brand_from_name cc (py_split s))))"
      by (auto simp: r bind_err_def)
    then show ?thesis
      using brand_from_name_run [of cc "py_split s"] brand_from_name_none [of cc "py_split s"]
      by (simp add: test)
  qed
  have not_string: "LentaAPI_extract_brand cc (PDict kvs) = Inl AttributeError"
    if "map_of kvs (ustr ''name'') = Some v \<and> (case v of PStr n \<Rightarrow> False | _ \<Rightarrow> True)"
    using that by (cases v) (simp_all add: r bind_err_def)
  have empty: "py_split [] = []"
    by (simp add: py_split_def)
  have token: "py_split tok = [tok]"
    if "tok \<noteq> [] \<and> list_all (\<lambda>c. \<not> py_isspace c) tok"
    using that by (simp add: py_split_def split_from_token)
  have separator: "py_split (a @ c # b) = py_split a @ py_split b" if "py_isspace c"
    using that by (simp add: py_split_def split_from_separator)
  have upper: "py_isupper cc w
          \<longleftrightarrow> list_all (\<lambda>c. cc c \<noteq> LowerOrTitle) w \<and> list_ex (\<lambda>c. cc c = Upper) w"
    by (simp add: py_isupper_def isupper_scan_iff)
  show ?thesis
    using run not_string empty token separator upper by blast
qed

text \<open>The item of the specification: the run COCA COLA ends at Light.\<close>

theorem extract_brand_name_heuristic_witness:
  "LentaAPI_extract_brand basic_case
     (PDict [(ustr ''id'', PInt 1), (ustr ''name'', PStr (ustr ''COCA COLA Light'')),
             (ustr ''attributes'', PList [])]) = Inr (PStr (ustr ''COCA COLA''))"
proof -
  let ?kvs = "[(ustr ''id'', PInt 1), (ustr ''name'', PStr (ustr ''COCA COLA Light'')),
               (ustr ''attributes'', PList [])]"
  have attributes: "py_iter (case map_of ?kvs (ustr ''attributes'') of
                               None \<Rightarrow> PList [] | Some a \<Rightarrow> a) = Inr (map PDict [])"
    by (simp add: ustr_def)
  have none: "list_all (\<lambda>d. \<not> is_brand_attribute d) []"
    by simp
  have name: "map_of ?kvs (ustr ''name'') = Some (PStr (ustr ''COCA COLA Light''))
                \<or> (map_of ?kvs (ustr ''name'') = None \<and> ustr ''COCA COLA Light'' = [])"
    by (simp add: ustr_def)
  have joined: "py_join (ustr '' '')
          (takeWhile (\<lambda>t. py_isupper basic_case t \<and> MIN_BRAND_LENGTH < length t)
             (dropWhile (\<lambda>t. \<not> (py_isupper basic_case t \<and> MIN_BRAND_LENGTH < length t))
                (py_split (ustr ''COCA COLA Light'')))) = ustr ''COCA COLA''"
    by (simp add: ustr_def py_split_def py_isspace_def py_isupper_def basic_case_def
        MIN_BRAND_LENGTH_def)
  from extract_brand_name_heuristic [OF attributes none, where cc = basic_case
      and s = "ustr ''COCA COLA Light''"] name
  have "LentaAPI_extract_brand basic_case (PDict ?kvs)
          = Inr (PStr (py_join (ustr '' '')
              (takeWhile (\<lambda>t. py_isupper basic_case t \<and> MIN_BRAND_LENGTH < length t)
                 (dropWhile (\<lambda>t. \<not> (py_isupper basic_case t \<and> MIN_BRAND_LENGTH < length t))
                    (py_split (ustr ''COCA COLA Light''))))))"
    by blast
  then show ?thesis
    by (simp only: joined)
qed

text \<open>
  C10. In main.py, when the first matching attribute has no value, the extraction returns
  the empty string at once: the name is not looked at, whatever it is.
\<close>

theorem extract_brand_attribute_without_value:
  assumes "map_of kvs (ustr ''attributes'') = Some (PList (map PDict pre @ PDict a # rest))"
    and "list_all (\<lambda>d. \<not> is_brand_attribute d) pre"
    and "is_brand_attribute a"
    and "map_of a (ustr ''value'') = None"
  shows "LentaAPI_extract_brand cc (PDict kvs) = Inr (PStr [])"
proof -
  have "brand_from_attributes (map PDict pre @ PDict a # rest) = Inr (Some (PStr []))"
    using assms by (simp add: brand_from_attributes_skip brand_from_attributes_hit
        del: brand_from_attributes.simps)
  then show ?thesis
    using assms(1) by (simp add: LentaAPI_extract_brand_def bind_err_def)
qed

text \<open>A brand attribute without value on an item named PEPSI MAX: the brand is empty.\<close>

theorem extract_brand_attribute_without_value_witness:
  "LentaAPI_extract_brand basic_case
     (PDict [(ustr ''attributes'', PList [PDict [(ustr ''alias'', PStr (ustr ''brand''))]]),
             (ustr ''name'', PStr (ustr ''PEPSI MAX''))]) = Inr (PStr [])"
  using extract_brand_attribute_without_value
    [of "[(ustr ''attributes'', PList [PDict [(ustr ''alias'', PStr (ustr ''brand''))]]),
          (ustr ''name'', PStr (ustr ''PEPSI MAX''))]"
        "[]" "[(ustr ''alias'', PStr (ustr ''brand''))]" "[]" basic_case]
  by (simp add: is_brand_attribute_def BRAND_ATTRIBUTE_ALIAS_def ustr_def)

section \<open>Properties of the collecting loop\<close>

lemma truthy_sequence_nonempty: "py_truthy v \<Longrightarrow> py_sequence v = Inr its \<Longrightarrow> its \<noteq> []"
  by (cases v) auto

lemma listing_request_limit_offset:
  "listing_request store category_id total_needed s = Inr request \<Longrightarrow>
   p_limit request = min PRODUCTS_PER_STORE (total_needed - int (length (collected s)))
   \<and> p_offset request = offset s"
  by (auto simp: listing_request_def bind_err_def Let_def split: sum.splits)

text \<open>What an iteration that goes on to the next one has done.\<close>

lemma loop_body_Continue:
  assumes "loop_body post store category_id total_needed s = Inr (Continue s')"
    and "int (length (collected s)) < total_needed"
  shows "\<exists>request its. its \<noteq> []
           \<and> listing_request store category_id total_needed s = Inr request
           \<and> s' = \<lparr>collected = collected s @ its, offset = offset s + length its,
                    trace = trace s @ [(request, length its)]\<rparr>
           \<and> int (length (collected s) + length its) < total_needed"
  using assms
  by (auto simp: loop_body_def bind_err_def Let_def py_slice_to_def
      split: sum.splits if_splits dest: truthy_sequence_nonempty)

text \<open>What an iteration that leaves the loop by \<open>break\<close> has done.\<close>

lemma loop_body_Break:
  assumes "loop_body post store category_id total_needed s = Inr (Break s')"
    and "int (length (collected s)) < total_needed"
  shows "\<exists>request k added.
           listing_request store category_id total_needed s = Inr request
           \<and> s' = \<lparr>collected = collected s @ added, offset = offset s,
                    trace = trace s @ [(request, k)]\<rparr>
           \<and> length added = min k (nat (total_needed - int (length (collected s))))
           \<and> (k = 0 \<or> total_needed \<le> int (length (collected s) + k))"
  using assms
  apply (auto simp: loop_body_def bind_err_def Let_def py_slice_to_def
      split: sum.splits if_splits)
  subgoal for request response data items
    by (rule exI [of _ 0], rule exI [of _ "[]"]) simp
  subgoal for request response data items its
    by (rule exI [of _ "length its"],
        rule exI [of _ "take (nat (total_needed - int (length (collected s)))) its"]) auto
  done

text \<open>
  The whole loop, from any state: what it adds to the trace and to the collected items,
  and where it leaves the offset.
\<close>

lemma collect_loop_Finished:
  assumes "collect_loop post store category_id total_needed s = Inr (Finished s')"
  shows "\<exists>new added.
           trace s' = trace s @ new \<and> collected s' = collected s @ added
           \<and> requests_paginate total_needed (length (collected s)) (offset s) new
           \<and> offset s' = offset s + sum_list (map snd (butlast new))
           \<and> length added
               = min (sum_list (map snd new)) (nat (total_needed - int (length (collected s))))
           \<and> (int (length (collected s)) < total_needed \<longrightarrow> new \<noteq> [])
           \<and> (int (length (collected s')) < total_needed \<longrightarrow> new \<noteq> [] \<and> snd (last new) = 0)"
  using assms
proof (induction post store category_id total_needed s rule: collect_loop.induct)
  case (1 post store category_id total_needed s)
  show ?case
  proof (cases "int (length (collected s)) < total_needed")
    case False
    with "1.prems" have "s' = s"
      by (simp add: collect_loop.simps)
    with False show ?thesis
      by (intro exI [of _ "[]"]) simp
  next
    case True
    with "1.prems" obtain step
      where step: "loop_body post store category_id total_needed s = Inr step"
      by (auto simp: collect_loop.simps split: sum.splits)
    show ?thesis
    proof (cases step)
      case (Continue s1)
      with "1.prems" True step
      have run: "collect_loop post store category_id total_needed s1 = Inr (Finished s')"
        by (simp add: collect_loop.simps)
      from loop_body_Continue [OF step [unfolded Continue] True]
      obtain request its where its: "its \<noteq> []"
        and request: "listing_request store category_id total_needed s = Inr request"
        and s1: "s1 = \<lparr>collected = collected s @ its, offset = offset s + length its,
                        trace = trace s @ [(request, length its)]\<rparr>"
        and more: "int (length (collected s) + length its) < total_needed"
        by blast
      from "1.IH" [OF True step Continue run]
      obtain new added where new: "trace s' = trace s1 @ new"
        and added: "collected s' = collected s1 @ added"
        and req: "requests_paginate total_needed (length (collected s1)) (offset s1) new"
        and off: "offset s' = offset s1 + sum_list (map snd (butlast new))"
        and len: "length added
                    = min (sum_list (map snd new)) (nat (total_needed - int (length (collected s1))))"
        and ne: "int (length (collected s1)) < total_needed \<longrightarrow> new \<noteq> []"
        and fin: "int (length (collected s')) < total_needed \<longrightarrow> new \<noteq> [] \<and> snd (last new) = 0"
        by blast
      from more s1 ne have nonempty: "new \<noteq> []"
        by simp
      let ?new = "(request, length its) # new"
      let ?added = "its @ added"
      have "trace s' = trace s @ ?new"
        using new s1 by simp
      moreover have "collected s' = collected s @ ?added"
        using added s1 by simp
      moreover have "requests_paginate total_needed (length (collected s)) (offset s) ?new"
        using req s1 listing_request_limit_offset [OF request] by simp
      moreover have "offset s' = offset s + sum_list (map snd (butlast ?new))"
        using off s1 nonempty by simp
      moreover have "length ?added
                       = min (sum_list (map snd ?new))
                             (nat (total_needed - int (length (collected s))))"
        using len s1 more by auto
      moreover have "int (length (collected s')) < total_needed
                       \<longrightarrow> ?new \<noteq> [] \<and> snd (last ?new) = 0"
        using fin nonempty by simp
      ultimately show ?thesis
        by (intro exI [of _ ?new] exI [of _ ?added]) simp
    next
      case (Break s1)
      with "1.prems" True step have s': "s' = s1"
        by (simp add: collect_loop.simps)
      from loop_body_Break [OF step [unfolded Break] True]
      obtain request k added
        where request: "listing_request store category_id total_needed s = Inr request"
        and s1: "s1 = \<lparr>collected = collected s @ added, offset = offset s,
                        trace = trace s @ [(request, k)]\<rparr>"
        and len: "length added = min k (nat (total_needed - int (length (collected s))))"
        and k: "k = 0 \<or> total_needed \<le> int (length (collected s) + k)"
        by blast
      have final: "s' = \<lparr>collected = collected s @ added, offset = offset s,
                           trace = trace s @ [(request, k)]\<rparr>"
        using s' s1 by simp
      have c1: "trace s' = trace s @ [(request, k)]"
        by (simp add: final)
      have c2: "collected s' = collected s @ added"
        by (simp add: final)
      have c3: "requests_paginate total_needed (length (collected s)) (offset s) [(request, k)]"
        using listing_request_limit_offset [OF request] by simp
      have c4: "offset s' = offset s + sum_list (map snd (butlast [(request, k)]))"
        by (simp add: final)
      have c5: "length added = min (sum_list (map snd [(request, k)]))
                                   (nat (total_needed - int (length (collected s))))"
        using len by simp
      have c6: "int (length (collected s)) < total_needed \<longrightarrow> [(request, k)] \<noteq> []"
        by simp
      have "int (length (collected s')) < total_needed \<longrightarrow> k = 0"
      proof (cases "k = 0")
        case False
        with k len True have "int (length added) = total_needed - int (length (collected s))"
          by (simp add: min_def) linarith
        then show ?thesis by (simp add: c2)
      qed simp
      then have c7: "int (length (collected s')) < total_needed
                       \<longrightarrow> [(request, k)] \<noteq> [] \<and> snd (last [(request, k)]) = 0"
        by simp
      from c1 c2 c3 c4 c5 c6 c7 show ?thesis
        by blast
    next
      case (Return_empty st)
      with "1.prems" True step show ?thesis
        by (simp add: collect_loop.simps)
    qed
  qed
qed

text \<open>The loop goes on from the state that an iteration hands to the next one.\<close>

lemma collect_loop_reaches:
  "reaches post store category_id total_needed s s1 \<Longrightarrow>
   collect_loop post store category_id total_needed s
     = collect_loop post store category_id total_needed s1"
proof (induction rule: reaches.induct)
  case (reaches_start s)
  show ?case by simp
next
  case (reaches_next s s1 s2)
  then show ?case
    by (simp add: collect_loop.simps [of post store category_id total_needed s1])
qed

lemma format_products_length: "format_products cc xs = Inr rs \<Longrightarrow> length rs = length xs"
  by (induction xs arbitrary: rs) (auto simp: bind_err_def split: sum.splits)

lemma falsy_store_no_request:
  "\<not> py_truthy store \<Longrightarrow> \<exists>e. listing_request store category_id total_needed s = Inl e"
  by (cases store) (auto simp: listing_request_def bind_err_def Let_def)

section \<open>The rounding to a double\<close>

text \<open>
  The parts of the rounding: \<open>bit_length\<close> brackets a number between powers of two,
  \<open>div_half_even\<close> is within one half of the quotient and takes the even neighbour on a
  tie.
\<close>

lemma bit_length_bounds: "0 < n \<Longrightarrow> 2 ^ (bit_length n - 1) \<le> n \<and> n < 2 ^ bit_length n"
proof (induction n rule: bit_length.induct)
  case (1 n)
  show ?case
  proof (cases "n div 2 = 0")
    case True
    with "1.prems" have "n = 1"
      by (simp add: div_eq_0_iff) 
    then show ?thesis
      by (simp add: bit_length.simps)
  next
    case False
    with "1.IH" "1.prems"
    have ih: "2 ^ (bit_length (n div 2) - 1) \<le> n div 2" "n div 2 < 2 ^ bit_length (n div 2)"
      by simp_all
    have pos: "0 < bit_length (n div 2)"
      using False by (simp add: bit_length.simps [of "n div 2"])
    have len: "bit_length n = Suc (bit_length (n div 2))"
      using "1.prems" by (simp add: bit_length.simps [of n])
    from pos obtain m where m: "bit_length (n div 2) = Suc m"
      by (cases "bit_length (n div 2)") simp_all
    from ih m have "2 * 2 ^ m \<le> 2 * (n div 2)" and "2 * (n div 2) + 1 < 2 * 2 ^ Suc m"
      by simp_all
    moreover have "2 * (n div 2) \<le> n" and "n \<le> 2 * (n div 2) + 1"
      by presburger+
    ultimately show ?thesis
      by (simp add: len m)
  qed
qed

lemma div_half_even_nearest:
  assumes "0 < b"
  shows "2 * \<bar>a - b * div_half_even a b\<bar> \<le> b"
proof -
  have r: "a - b * (a div b) = a mod b"
    by (simp add: minus_mult_div_eq_mod)
  have bounds: "0 \<le> a mod b" "a mod b < b"
    using assms by simp_all
  have up: "a - b * (a div b + 1) = a mod b - b"
    using r by (simp add: algebra_simps)
  show ?thesis
    using bounds unfolding div_half_even_def Let_def
    by (simp add: r up)
qed

lemma div_half_even_tie:
  assumes "0 < b" and "2 * (a mod b) = b"
  shows "even (div_half_even a b)"
  using assms by (simp add: div_half_even_def Let_def)

lemma scaled_value:
  assumes "0 < d"
  shows "0 < snd (scaled a d s)"
    and "(of_int (fst (scaled a d s)) / of_int (snd (scaled a d s)) :: rat)
           = of_int a / of_int d / 2 powi s"
  using assms by (simp_all add: scaled_def power_int_def field_simps)

text \<open>
  The result of the rounding is within half a spacing of the quotient, the spacing being
  \<open>2 ^ (e - 52)\<close> for the binary exponent \<open>e\<close> of the quotient, or \<open>2 ^ (-1074)\<close>.
\<close>

lemma round_double_nearest:
  assumes "0 < d" and "round_double n d = Some x"
  shows "\<bar>x - of_int n / of_int d\<bar>
           \<le> 2 powi (max (binary_exponent \<bar>n\<bar> d) (- 1022) - 52) / 2"
proof (cases "n = 0")
  case True
  with assms(2) show ?thesis
    by (simp add: round_double_def)
next
  case False
  define s where "s = max (binary_exponent \<bar>n\<bar> d) (- 1022) - 52"
  define p where "p = fst (scaled \<bar>n\<bar> d s)"
  define q where "q = snd (scaled \<bar>n\<bar> d s)"
  define m where "m = div_half_even p q"
  have x: "x = of_int (sgn n * m) * 2 powi s"
    using assms(2) False
    by (simp add: round_double_def Let_def s_def p_def q_def m_def split: if_splits)
  have q: "0 < q"
    unfolding q_def by (rule scaled_value(1) [OF assms(1)])
  have quot: "(of_int p / of_int q :: rat) = of_int \<bar>n\<bar> / of_int d / 2 powi s"
    unfolding p_def q_def by (rule scaled_value(2) [OF assms(1)])
  have pow: "(0::rat) < 2 powi s"
    by simp
  from div_half_even_nearest [OF q, of p] have "2 * \<bar>p - q * m\<bar> \<le> q"
    by (simp add: m_def)
  then have "(of_int (2 * \<bar>p - q * m\<bar>) :: rat) \<le> of_int q"
    by (simp only: of_int_le_iff)
  then have "2 * \<bar>of_int p - of_int q * (of_int m :: rat)\<bar> \<le> of_int q"
    by simp
  then have "2 * \<bar>of_int p / of_int q - (of_int m :: rat)\<bar> \<le> 1"
    using q by (simp add: field_simps abs_if split: if_splits)
  then have "\<bar>of_int \<bar>n\<bar> / of_int d / 2 powi s - (of_int m :: rat)\<bar> \<le> 1 / 2"
    by (simp add: quot)
  then have A: "\<bar>of_int \<bar>n\<bar> / of_int d / 2 powi s - (of_int m :: rat)\<bar> * 2 powi s
               \<le> 1 / 2 * 2 powi s"
    using pow by (simp only: mult_le_cancel_right_pos)
  have B: "\<bar>of_int \<bar>n\<bar> / of_int d / 2 powi s - (of_int m :: rat)\<bar> * 2 powi s
                   = \<bar>of_int \<bar>n\<bar> / of_int d - of_int m * 2 powi s\<bar>"
  proof -
    have "\<bar>of_int \<bar>n\<bar> / of_int d / 2 powi s - (of_int m :: rat)\<bar> * \<bar>2 powi s\<bar>
            = \<bar>(of_int \<bar>n\<bar> / of_int d / 2 powi s - of_int m) * 2 powi s\<bar>"
      by (simp only: abs_mult)
    also have "(of_int \<bar>n\<bar> / of_int d / 2 powi s - (of_int m :: rat)) * 2 powi s
                 = of_int \<bar>n\<bar> / of_int d - of_int m * 2 powi s"
      using pow by (simp add: field_simps)
    finally show ?thesis
      using pow by simp
  qed
  from A have "\<bar>of_int \<bar>n\<bar> / of_int d - (of_int m :: rat) * 2 powi s\<bar>
                 \<le> 1 / 2 * 2 powi s"
    unfolding B .
  then have near: "\<bar>of_int \<bar>n\<bar> / of_int d - (of_int m :: rat) * 2 powi s\<bar>
                     \<le> 2 powi s / 2"
    by simp
  have "x - of_int n / of_int d
          = of_int (sgn n) * (of_int m * 2 powi s - of_int \<bar>n\<bar> / of_int d)"
    using False by (simp add: x algebra_simps abs_if sgn_if)
  then have "\<bar>x - of_int n / of_int d\<bar> = \<bar>of_int \<bar>n\<bar> / of_int d - of_int m * 2 powi s\<bar>"
    using False by (simp add: abs_mult abs_minus_commute sgn_if)
  with near show ?thesis
    by (simp add: s_def)
qed

text \<open>The binary exponent brackets the quotient between consecutive powers of two.\<close>

lemma binary_exponent_bounds:
  assumes "0 < n" and "0 < d"
  shows "2 powi binary_exponent n d \<le> (of_int n / of_int d :: rat)"
    and "(of_int n / of_int d :: rat) < 2 powi (binary_exponent n d + 1)"
proof -
  define k where "k = int (bit_length (nat n)) - int (bit_length (nat d))"
  from assms bit_length_bounds [of "nat n"] bit_length_bounds [of "nat d"]
  have nat_bounds: "2 ^ (bit_length (nat n) - 1) \<le> nat n" "nat n < 2 ^ bit_length (nat n)"
    "2 ^ (bit_length (nat d) - 1) \<le> nat d" "nat d < 2 ^ bit_length (nat d)"
    by simp_all
  from assms have pos: "0 < bit_length (nat n)" "0 < bit_length (nat d)"
    by (simp_all add: bit_length.simps [of "nat n"] bit_length.simps [of "nat d"])
  then obtain a b where a: "bit_length (nat n) = Suc a" and b: "bit_length (nat d) = Suc b"
    by (cases "bit_length (nat n)"; cases "bit_length (nat d)") simp_all
  have "(of_nat (2 ^ a) :: rat) \<le> of_nat (nat n)"
    and "(of_nat (nat n) :: rat) < of_nat (2 ^ Suc a)"
    and "(of_nat (2 ^ b) :: rat) \<le> of_nat (nat d)"
    and "(of_nat (nat d) :: rat) < of_nat (2 ^ Suc b)"
    using nat_bounds unfolding a b of_nat_le_iff of_nat_less_iff by simp_all
  with assms have rat_bounds: "(2 ^ a :: rat) \<le> of_int n" "(of_int n :: rat) < 2 ^ Suc a"
    "(2 ^ b :: rat) \<le> of_int d" "(of_int d :: rat) < 2 ^ Suc b"
    by simp_all
  have "(2 ^ a :: rat) / 2 ^ Suc b \<le> of_int n / of_int d"
    using rat_bounds(1,4) assms by (intro frac_le) simp_all
  moreover have "(2 ^ a :: rat) / 2 ^ Suc b = 2 powi (k - 1)"
    by (simp add: k_def a b power_int_diff power_int_add)
  ultimately have lower: "2 powi (k - 1) \<le> (of_int n / of_int d :: rat)"
    by simp
  have "(of_int n :: rat) / of_int d < 2 ^ Suc a / 2 ^ b"
    using rat_bounds(2,3) assms by (intro frac_less) simp_all
  moreover have "(2 ^ Suc a :: rat) / 2 ^ b = 2 powi (k + 1)"
    by (simp add: k_def a b power_int_diff power_int_add)
  ultimately have upper: "(of_int n / of_int d :: rat) < 2 powi (k + 1)"
    by simp
  have test: "snd (scaled n d k) \<le> fst (scaled n d k)
                \<longleftrightarrow> 2 powi k \<le> (of_int n / of_int d :: rat)"
  proof -
    have "snd (scaled n d k) \<le> fst (scaled n d k)
            \<longleftrightarrow> (1 :: rat) \<le> of_int (fst (scaled n d k)) / of_int (snd (scaled n d k))"
      using scaled_value(1) [OF assms(2), of n k] by (simp add: le_divide_eq)
    also have "\<dots> \<longleftrightarrow> (1 :: rat) \<le> of_int n / of_int d / 2 powi k"
      by (simp only: scaled_value(2) [OF assms(2)])
    also have "\<dots> \<longleftrightarrow> 2 powi k \<le> (of_int n / of_int d :: rat)"
    proof -
      have "(0 :: rat) < 2 powi k"
        by simp
      from pos_le_divide_eq [OF this, of 1 "of_int n / of_int d"] show ?thesis
        by (simp only: mult_1)
    qed
    finally show ?thesis .
  qed
  have e: "binary_exponent n d = (if 2 powi k \<le> (of_int n / of_int d :: rat) then k else k - 1)"
    by (simp add: binary_exponent_def Let_def k_def [symmetric] test)
  show "2 powi binary_exponent n d \<le> (of_int n / of_int d :: rat)"
    using lower by (simp add: e)
  show "(of_int n / of_int d :: rat) < 2 powi (binary_exponent n d + 1)"
    using upper by (simp add: e not_le)
qed

text \<open>
  The usual case, where the spacing of the doubles around the quotient is \<open>2 ^ (- k)\<close> for
  a positive \<open>k\<close>: the result is the nearest multiple of that spacing.
\<close>

lemma round_double_small:
  assumes "n \<noteq> 0" and "binary_exponent \<bar>n\<bar> d = e" and "max e (- 1022) - 52 = - int k"
    and "0 < k" and "div_half_even (\<bar>n\<bar> * 2 ^ k) d = m"
  shows "round_double n d = Some (of_int (sgn n * m) / 2 ^ k)"
proof -
  have s: "scaled \<bar>n\<bar> d (- int k) = (\<bar>n\<bar> * 2 ^ k, d)"
    using assms(4) by (simp add: scaled_def)
  have p: "(2::rat) powi (- int k) = 1 / 2 ^ k"
    by (simp add: power_int_minus field_simps)
  show ?thesis
    using assms(1,4) unfolding round_double_def assms(2) assms(3) Let_def s fst_conv snd_conv
      assms(5) p
    by simp
qed

lemma binary_exponent_12999: "binary_exponent 12999 100 = 7"
  by (simp add: binary_exponent_def bit_length.simps scaled_def)

lemma binary_exponent_9900: "binary_exponent 9900 100 = 6"
  by (simp add: binary_exponent_def bit_length.simps scaled_def)

lemma round_double_12999: "round_double 12999 100 = Some (4573616527827272 / 2 ^ 45)"
  using round_double_small [of 12999 100 7 45 4573616527827272]
  by (simp add: binary_exponent_12999 div_half_even_def)

lemma round_double_9900: "round_double 9900 100 = Some 99"
  using round_double_small [of 9900 100 6 46 6966505673588736]
  by (simp add: binary_exponent_9900 div_half_even_def)

text \<open>The double for 12999 / 100 is within half a spacing of 129.99.\<close>

lemma nearest_12999: "\<bar>4573616527827272 / 2 ^ 45 - 12999 / 100\<bar> \<le> (1 / 2 ^ 46 :: rat)"
  by simp

text \<open>
  The hundredth of an integer: the double differs from the quotient by at most the
  quotient times \<open>2 ^ (-53)\<close>.
\<close>

lemma round_double_100_relative:
  assumes "round_double r 100 = Some x"
  shows "\<bar>x - of_int r / 100\<bar> \<le> \<bar>of_int r / 100\<bar> / 2 ^ 53"
proof (cases "r = 0")
  case True
  with assms show ?thesis
    by (simp add: round_double_def)
next
  case False
  define e where "e = binary_exponent \<bar>r\<bar> 100"
  from False have pos: "0 < \<bar>r\<bar>"
    by simp
  from binary_exponent_bounds [OF pos, of 100]
  have lower: "2 powi e \<le> (of_int \<bar>r\<bar> / 100 :: rat)"
    and upper: "(of_int \<bar>r\<bar> / 100 :: rat) < 2 powi (e + 1)"
    by (simp_all add: e_def)
  have "- 8 < e"
  proof (rule ccontr)
    assume "\<not> - 8 < e"
    then have "e + 1 \<le> - 7"
      by simp
    then have "(2 :: rat) powi (e + 1) \<le> 2 powi (- 7)"
      by (intro power_int_increasing) simp_all
    moreover have "(1 :: rat) \<le> of_int \<bar>r\<bar>"
      using pos by (simp add: int_one_le_iff_zero_less)
    then have "(1 / 100 :: rat) \<le> of_int \<bar>r\<bar> / 100"
      by simp
    ultimately have "(1 / 100 :: rat) < 2 powi (- 7)"
      using upper by linarith
    then show False
      by (simp add: power_int_minus)
  qed
  then have spacing: "max e (- 1022) - 52 = e - 52"
    by simp
  have "(2 :: rat) powi (e - 52) / 2 = 2 powi e / 2 ^ 53"
    by (simp add: power_int_diff)
  with round_double_nearest [of 100 r x] assms
  have "\<bar>x - of_int r / 100\<bar> \<le> 2 powi e / 2 ^ 53"
    by (simp add: e_def [symmetric] spacing)
  also have "\<dots> \<le> (of_int \<bar>r\<bar> / 100) / 2 ^ 53"
    using lower by (simp add: divide_right_mono)
  finally show ?thesis
    by simp
qed

text \<open>No overflow for a quotient below \<open>2 ^ 52\<close>: the spacing of the doubles is below one.\<close>

lemma round_double_100_returns:
  assumes "\<bar>n\<bar> < 100 * 2 ^ 52"
  shows "round_double n 100 \<noteq> None"
proof (cases "n = 0")
  case True
  then show ?thesis
    by (simp add: round_double_def)
next
  case False
  define e where "e = binary_exponent \<bar>n\<bar> 100"
  from False have pos: "0 < \<bar>n\<bar>"
    by simp
  from binary_exponent_bounds(1) [OF pos, of 100]
  have "2 powi e \<le> (of_int \<bar>n\<bar> / 100 :: rat)"
    by (simp add: e_def)
  moreover from assms have "(of_int \<bar>n\<bar> :: rat) < of_int (100 * 2 ^ 52)"
    by (simp only: of_int_less_iff)
  then have "(of_int \<bar>n\<bar> / 100 :: rat) < 2 powi 52"
    by simp
  ultimately have "(2 :: rat) powi e < 2 powi 52"
    by linarith
  then have "e < 52"
    by (intro power_int_le_imp_less_exp [of "2 :: rat"]) simp_all
  then have "\<not> 0 \<le> max e (- 1022) - 52"
    by simp
  then show ?thesis
    unfolding round_double_def Let_def e_def [symmetric]
    by (simp only: False if_False simp_thms option.distinct not_False_eq_True)
qed

section \<open>The example source\<close>

lemma ustr_eq_iff [simp]: "ustr a = ustr b \<longleftrightarrow> a = b"
  unfolding ustr_def by (rule inj_map_eq_map) (simp add: inj_on_def)

lemma example_request:
  "listing_request example_store category_id total_needed s =
     Inr \<lparr>p_categoryId = category_id,
          p_limit = min 100 (total_needed - int (length (collected s))),
          p_offset = offset s, p_regionId = PInt 3, p_pickupStoreId = PInt 3135\<rparr>"
  by (simp add: listing_request_def example_store_def bind_err_def PRODUCTS_PER_STORE_def Let_def)

lemma example_body:
  "loop_body example_listing example_store category_id total_needed s =
     (let request = \<lparr>p_categoryId = category_id,
                     p_limit = min 100 (total_needed - int (length (collected s))),
                     p_offset = offset s, p_regionId = PInt 3, p_pickupStoreId = PInt 3135\<rparr>;
          its = example_page (offset s)
      in if its = [] then Inr (Break (s\<lparr>trace := trace s @ [(request, 0)]\<rparr>))
         else
           let s' = s\<lparr>collected :=
                          collected s @ py_slice_to its (total_needed - int (length (collected s))),
                        trace := trace s @ [(request, length its)]\<rparr>
           in if total_needed \<le> int (length (collected s')) then Inr (Break s')
              else Inr (Continue (s'\<lparr>offset := offset s + length its\<rparr>)))"
  by (simp add: loop_body_def example_request example_listing_def bind_err_def Let_def)

lemma example_run_5:
  "collect_loop example_listing example_store 2 5 initial_state =
     Inr (Finished
       \<lparr>collected = [example_item 1, example_item 2, example_item 3, example_item 4, example_item 5],
        offset = 3,
        trace = [(\<lparr>p_categoryId = 2, p_limit = 5, p_offset = 0, p_regionId = PInt 3,
                   p_pickupStoreId = PInt 3135\<rparr>, 3),
                 (\<lparr>p_categoryId = 2, p_limit = 2, p_offset = 3, p_regionId = PInt 3,
                   p_pickupStoreId = PInt 3135\<rparr>, 3)]\<rparr>)"
  by (simp add: collect_loop.simps example_body initial_state_def example_page_def
      py_slice_to_def Let_def)

lemma example_run_10:
  "collect_loop example_listing example_store 2 10 initial_state =
     Inr (Finished
       \<lparr>collected = [example_item 1, example_item 2, example_item 3,
                     example_item 4, example_item 5, example_item 6],
        offset = 6,
        trace = [(\<lparr>p_categoryId = 2, p_limit = 10, p_offset = 0, p_regionId = PInt 3,
                   p_pickupStoreId = PInt 3135\<rparr>, 3),
                 (\<lparr>p_categoryId = 2, p_limit = 7, p_offset = 3, p_regionId = PInt 3,
                   p_pickupStoreId = PInt 3135\<rparr>, 3),
                 (\<lparr>p_categoryId = 2, p_limit = 4, p_offset = 6, p_regionId = PInt 3,
                   p_pickupStoreId = PInt 3135\<rparr>, 0)]\<rparr>)"
  by (simp add: collect_loop.simps example_body initial_state_def example_page_def
      py_slice_to_def Let_def)

lemma example_format:
  "format_product basic_case (example_item n) =
     Inr (PDict [(ustr ''id'', PInt n), (ustr ''name'', PStr (ustr ''COCA COLA Light'')),
                 (ustr ''regular_price'', PFloat (4573616527827272 / 2 ^ 45)),
                 (ustr ''promo_price'', PFloat 99),
                 (ustr ''brand'', PStr (ustr ''COCA COLA''))])"
proof -
  have brand: "LentaAPI_extract_brand basic_case (example_item n) = Inr (PStr (ustr ''COCA COLA''))"
    by (simp add: LentaAPI_extract_brand_def example_item_def bind_err_def ustr_def
        py_split_def py_isspace_def brand_part_def py_isupper_def basic_case_def
        MIN_BRAND_LENGTH_def)
  have fields:
    "py_getitem (example_item n) (ustr ''id'') = Inr (PInt n)"
    "py_get (example_item n) (ustr ''name'') (PStr []) = Inr (PStr (ustr ''COCA COLA Light''))"
    "py_getitem (example_item n) (ustr ''prices'')
       = Inr (PDict [(ustr ''priceRegular'', PInt 12999), (ustr ''price'', PInt 9900)])"
    by (simp_all add: example_item_def)
  have prices:
    "py_getitem (PDict [(ustr ''priceRegular'', PInt 12999), (ustr ''price'', PInt 9900)])
       (ustr ''priceRegular'') = Inr (PInt 12999)"
    "py_getitem (PDict [(ustr ''priceRegular'', PInt 12999), (ustr ''price'', PInt 9900)])
       (ustr ''price'') = Inr (PInt 9900)"
    by simp_all
  show ?thesis
    unfolding format_product_def
    by (simp add: fields prices brand bind_err_def float_div_100_def
        round_double_12999 round_double_9900)
qed

lemma example_get_products_10:
  "\<exists>records. LentaAPI_get_products basic_case example_listing example_store 2 10 = Inr records"
proof -
  have "py_truthy example_store"
    "\<exists>v. py_getitem example_store (ustr ''id'') = Inr v"
    "\<exists>v. py_getitem example_store (ustr ''title'') = Inr v"
    by (simp_all add: example_store_def)
  then show ?thesis
    by (auto simp: LentaAPI_get_products_def example_run_10 bind_err_def py_slice_to_def
        example_format)
qed

section \<open>A source that answers every request well\<close>

text \<open>
  \<open>get_products\<close> returns, and does not raise, when the store has its three entries, every
  request is answered with status 200 and a body whose items are a list, and every item
  of every page can be formatted.
\<close>

lemma format_products_returns:
  "list_all (\<lambda>item. \<exists>r. format_product cc item = Inr r) xs \<Longrightarrow>
   \<exists>rs. format_products cc xs = Inr rs"
  by (induction xs) (auto simp: bind_err_def)

lemma collect_loop_returns:
  assumes region: "py_getitem store (ustr ''regionId'') = Inr region"
    and store_id: "py_getitem store (ustr ''id'') = Inr sid"
    and answer: "\<And>request. \<exists>data. post request = Inr (HttpResponse 200 (Inr data))
                   \<and> py_get data (ustr ''items'') (PList []) = Inr (PList (page request))"
    and pages: "\<And>request. list_all ok (page request)"
    and start: "list_all ok (collected s)"
  shows "\<exists>s'. collect_loop post store category_id total_needed s = Inr (Finished s')
              \<and> list_all ok (collected s')"
  using assms
proof (induction post store category_id total_needed s rule: collect_loop.induct)
  case (1 post store category_id total_needed s)
  note region = "1.prems"(1) and store_id = "1.prems"(2) and answer = "1.prems"(3)
    and pages = "1.prems"(4) and ok = "1.prems"(5)
  show ?case
  proof (cases "int (length (collected s)) < total_needed")
    case False
    with ok show ?thesis
      by (simp add: collect_loop.simps)
  next
    case True
    obtain request where request: "listing_request store category_id total_needed s = Inr request"
      using region store_id by (simp add: listing_request_def bind_err_def Let_def)
    from answer [of request] obtain data
      where post: "post request = Inr (HttpResponse 200 (Inr data))"
        and items: "py_get data (ustr ''items'') (PList []) = Inr (PList (page request))"
      by blast
    let ?its = "page request"
    let ?s' = "s\<lparr>collected := collected s
                               @ py_slice_to ?its (total_needed - int (length (collected s))),
                  trace := trace s @ [(request, length ?its)]\<rparr>"
    have body: "loop_body post store category_id total_needed s =
                  (if ?its = [] then Inr (Break (s\<lparr>trace := trace s @ [(request, 0)]\<rparr>))
                   else if total_needed \<le> int (length (collected ?s')) then Inr (Break ?s')
                   else Inr (Continue (?s'\<lparr>offset := offset s + length ?its\<rparr>)))"
      by (simp add: loop_body_def request post items bind_err_def Let_def)
    have ok': "list_all ok (collected ?s')"
      using ok pages [of request] True
      by (auto simp: py_slice_to_def list_all_iff dest: in_set_takeD)
    show ?thesis
    proof (cases "?its = []")
      case True
      with \<open>int (length (collected s)) < total_needed\<close> body ok show ?thesis
        by (simp add: collect_loop.simps [of post store category_id total_needed s])
    next
      case nonempty: False
      show ?thesis
      proof (cases "total_needed \<le> int (length (collected ?s'))")
        case True
        with \<open>int (length (collected s)) < total_needed\<close> body nonempty ok' show ?thesis
          by (simp add: collect_loop.simps [of post store category_id total_needed s])
      next
        case False
        let ?s1 = "?s'\<lparr>offset := offset s + length ?its\<rparr>"
        from False body nonempty
        have step: "loop_body post store category_id total_needed s = Inr (Continue ?s1)"
          by simp
        have "list_all ok (collected ?s1)"
          using ok' by simp
        from "1.IH" [OF True step refl region store_id answer pages this]
        obtain s' where "collect_loop post store category_id total_needed ?s1 = Inr (Finished s')"
          and "list_all ok (collected s')"
          by blast
        with True step show ?thesis
          by (simp add: collect_loop.simps [of post store category_id total_needed s])
      qed
    qed
  qed
qed

lemma get_products_returns:
  assumes "py_getitem store (ustr ''regionId'') = Inr region"
    and "py_getitem store (ustr ''id'') = Inr sid"
    and "py_getitem store (ustr ''title'') = Inr title"
    and "\<And>request. \<exists>data. post request = Inr (HttpResponse 200 (Inr data))
           \<and> py_get data (ustr ''items'') (PList []) = Inr (PList (page request))"
    and "\<And>request. list_all (\<lambda>item. \<exists>r. format_product cc item = Inr r) (page request)"
  shows "\<exists>records. LentaAPI_get_products cc post store category_id total_needed = Inr records"
proof -
  have "list_all (\<lambda>item. \<exists>r. format_product cc item = Inr r) (collected initial_state)"
    by (simp add: initial_state_def)
  from collect_loop_returns
    [where post = post and page = page and s = initial_state
       and ok = "\<lambda>item. \<exists>r. format_product cc item = Inr r"
       and category_id = category_id and total_needed = total_needed,
     OF assms(1,2,4,5) this]
  obtain s' where run: "collect_loop post store category_id total_needed initial_state
                          = Inr (Finished s')"
    and ok: "list_all (\<lambda>item. \<exists>r. format_product cc item = Inr r) (collected s')"
    by blast
  from ok have "list_all (\<lambda>item. \<exists>r. format_product cc item = Inr r)
                  (py_slice_to (collected s') total_needed)"
    by (auto simp: py_slice_to_def list_all_iff dest: in_set_takeD)
  from format_products_returns [OF this] obtain records
    where "format_products cc (py_slice_to (collected s') total_needed) = Inr records"
    by blast
  with run assms(2,3) show ?thesis
    by (auto simp: LentaAPI_get_products_def bind_err_def)
qed

text \<open>The loop of \<open>main\<close> has an outcome for every city, whatever happens for the others.\<close>

lemma main_every_city: "length (main cc post) = length CITIES"
  by (simp add: main_def)

section \<open>The records that \<open>get_products\<close> returns\<close>

text \<open>
  They are what the comprehension makes of the items collected, one for one.
\<close>

lemma format_products_list_all2:
  "format_products cc xs = Inr rs \<Longrightarrow> list_all2 (\<lambda>x r. format_product cc x = Inr r) xs rs"
  by (induction xs arbitrary: rs) (auto simp: bind_err_def split: sum.splits)

lemma get_products_records:
  assumes "LentaAPI_get_products cc post store category_id total_needed = Inr records"
    and "finished_state (collect_loop post store category_id total_needed initial_state) = Some s"
  shows "list_all2 (\<lambda>item r. format_product cc item = Inr r)
           (py_slice_to (collected s) total_needed) records"
proof -
  from assms(2) have run: "collect_loop post store category_id total_needed initial_state
                             = Inr (Finished s)"
    by (cases "collect_loop post store category_id total_needed initial_state"
        rule: finished_state.cases) simp_all
  show ?thesis
  proof (cases "py_truthy store")
    case False
    then have records: "records = []"
      using assms(1) by (simp add: LentaAPI_get_products_def)
    obtain e where "listing_request store category_id total_needed initial_state = Inl e"
      using falsy_store_no_request [OF False] by blast
    with run have "s = initial_state"
      by (simp add: collect_loop.simps [of _ _ _ _ initial_state] loop_body_def bind_err_def
          split: if_splits)
    then show ?thesis
      by (simp add: records initial_state_def py_slice_to_def)
  next
    case True
    with assms(1) run
    have "format_products cc (py_slice_to (collected s) total_needed) = Inr records"
      by (auto simp: LentaAPI_get_products_def bind_err_def split: sum.splits)
    then show ?thesis
      by (rule format_products_list_all2)
  qed
qed


section \<open>The claims on the collection\<close>

text \<open>
  C1. For a required count \<open>N \<ge> 0\<close>, whenever \<open>get_products\<close> returns, it returns at most
  \<open>N\<close> records. When moreover the loop came to its end and the pages the source returned
  hold fewer than \<open>N\<close> items altogether, the last page was empty and the number of records
  is the number of items the source returned.
\<close>

theorem get_products_bounded:
  assumes "LentaAPI_get_products cc post store category_id total_needed = Inr records"
    and "0 \<le> total_needed"
  shows "int (length records) \<le> total_needed
       \<and> (finished_state (collect_loop post store category_id total_needed initial_state) = Some s
            \<and> int (sum_list (map snd (trace s))) < total_needed
          \<longrightarrow> length records = sum_list (map snd (trace s))
              \<and> trace s \<noteq> [] \<and> snd (last (trace s)) = 0)"
proof (cases "py_truthy store")
  case False
  then have "records = []"
    using assms(1) by (simp add: LentaAPI_get_products_def)
  moreover have "finished_state (collect_loop post store category_id total_needed initial_state)
                   \<noteq> Some s" if "int (sum_list (map snd (trace s))) < total_needed"
  proof -
    from that have "int (length (collected initial_state)) < total_needed"
      by (simp add: initial_state_def)
    moreover obtain e where "listing_request store category_id total_needed initial_state = Inl e"
      using falsy_store_no_request [OF False] by blast
    ultimately show ?thesis
      by (simp add: collect_loop.simps [of _ _ _ _ initial_state] loop_body_def bind_err_def)
  qed
  ultimately show ?thesis
    using assms(2) by auto
next
  case True
  with assms(1) obtain out
    where out: "collect_loop post store category_id total_needed initial_state = Inr out"
      and res: "(case out of Aborted st \<Rightarrow> Inr []
                 | Finished s0 \<Rightarrow> format_products cc (py_slice_to (collected s0) total_needed))
                = Inr records"
    by (auto simp: LentaAPI_get_products_def bind_err_def split: sum.splits)
  show ?thesis
  proof (cases out)
    case (Aborted st)
    with res out assms(2) show ?thesis by simp
  next
    case (Finished s0)
    with res have len: "length records = length (py_slice_to (collected s0) total_needed)"
      by (simp add: format_products_length)
    with assms(2) have bound: "int (length records) \<le> total_needed"
      by (simp add: py_slice_to_def)
    from collect_loop_Finished [OF out [unfolded Finished]]
    have added: "length (collected s0)
                   = min (sum_list (map snd (trace s0))) (nat total_needed)"
      and last: "int (length (collected s0)) < total_needed
                   \<longrightarrow> trace s0 \<noteq> [] \<and> snd (last (trace s0)) = 0"
      by (auto simp: initial_state_def)
    have "length records = sum_list (map snd (trace s0))
            \<and> trace s0 \<noteq> [] \<and> snd (List.last (trace s0)) = 0"
      if lt: "int (sum_list (map snd (trace s0))) < total_needed"
    proof -
      from lt have "sum_list (map snd (trace s0)) < nat total_needed"
        by linarith
      with added have eq: "length (collected s0) = sum_list (map snd (trace s0))"
        by simp
      with lt last have "trace s0 \<noteq> [] \<and> snd (List.last (trace s0)) = 0"
        by simp
      moreover from eq lt len assms(2) have "length records = sum_list (map snd (trace s0))"
        by (simp add: py_slice_to_def)
      ultimately show ?thesis by simp
    qed
    with bound out Finished show ?thesis
      by auto
  qed
qed

text \<open>
  The example source gives six items and then an empty page; ten are required, six
  records are returned.
\<close>

theorem get_products_bounded_witness:
  "\<exists>records. LentaAPI_get_products basic_case example_listing example_store 2 10 = Inr records
     \<and> length records = 6"
proof -
  obtain records
    where r: "LentaAPI_get_products basic_case example_listing example_store 2 10 = Inr records"
    using example_get_products_10 by blast
  let ?s = "\<lparr>collected = [example_item 1, example_item 2, example_item 3,
                          example_item 4, example_item 5, example_item 6],
            offset = 6,
            trace = [(\<lparr>p_categoryId = 2, p_limit = 10, p_offset = 0, p_regionId = PInt 3,
                       p_pickupStoreId = PInt 3135\<rparr>, 3),
                     (\<lparr>p_categoryId = 2, p_limit = 7, p_offset = 3, p_regionId = PInt 3,
                       p_pickupStoreId = PInt 3135\<rparr>, 3),
                     (\<lparr>p_categoryId = 2, p_limit = 4, p_offset = 6, p_regionId = PInt 3,
                       p_pickupStoreId = PInt 3135\<rparr>, 0)]\<rparr>"
  have "finished_state (collect_loop example_listing example_store 2 10 initial_state) = Some ?s"
    by (simp add: example_run_10)
  with get_products_bounded [OF r, where s = ?s] have "length records = 6"
    by simp
  with r show ?thesis by blast
qed

text \<open>
  C2, as the specification states it, fails on the example source with five items
  required: the two pages of three items are consumed, and the offset is 3 at the end, not
  6. The second page completes the count, and the loop is left before the offset is
  advanced.
\<close>

theorem pagination_offset_counterexample:
  "map_option (\<lambda>s. map snd (trace s))
     (finished_state (collect_loop example_listing example_store 2 5 initial_state)) = Some [3, 3]
   \<and> map_option offset
     (finished_state (collect_loop example_listing example_store 2 5 initial_state)) = Some 3
   \<and> map_option offset
     (finished_state (collect_loop example_listing example_store 2 5 initial_state))
       \<noteq> Some (3 + 3)"
  by (simp add: example_run_5)

text \<open>
  C2, amended. In every iteration the request asks for
  \<open>min(page size, required count - number collected)\<close> items at the current offset. After a
  page that does not complete the count, the offset advances by the number of items the
  source returned, all of which were appended; after the page that completes the count, or
  an empty page, the offset is left as it is. So in a run that comes to its end, every
  request has the offset that is the number of items returned before it, and the final
  offset counts the pages but the last. With five items required and pages of three, three
  and no items, two requests are made and five items collected.
\<close>

theorem pagination_requests:
  "(int (length (collected s)) < total_needed
      \<and> loop_body post store category_id total_needed s = Inr (Continue s')
    \<longrightarrow> (\<exists>request k. trace s' = trace s @ [(request, k)]
           \<and> p_limit request = min PRODUCTS_PER_STORE (total_needed - int (length (collected s)))
           \<and> p_offset request = offset s
           \<and> 0 < k \<and> offset s' = offset s + k
           \<and> length (collected s') = length (collected s) + k))
   \<and> (int (length (collected s)) < total_needed
      \<and> loop_body post store category_id total_needed s = Inr (Break s')
    \<longrightarrow> (\<exists>request k. trace s' = trace s @ [(request, k)]
           \<and> p_limit request = min PRODUCTS_PER_STORE (total_needed - int (length (collected s)))
           \<and> p_offset request = offset s
           \<and> offset s' = offset s
           \<and> length (collected s')
               = length (collected s) + min k (nat (total_needed - int (length (collected s))))))
   \<and> (finished_state (collect_loop post store category_id total_needed initial_state) = Some f
    \<longrightarrow> requests_paginate total_needed 0 0 (trace f)
        \<and> offset f = sum_list (map snd (butlast (trace f))))
   \<and> map_option (\<lambda>s. (length (trace s), length (collected s)))
        (finished_state (collect_loop example_listing example_store 2 5 initial_state))
       = Some (2, 5)"
proof (intro conjI impI)
  assume a: "int (length (collected s)) < total_needed
             \<and> loop_body post store category_id total_needed s = Inr (Continue s')"
  from loop_body_Continue [of post store category_id total_needed s s'] a
  obtain request its where its: "its \<noteq> []"
    and request: "listing_request store category_id total_needed s = Inr request"
    and s': "s' = \<lparr>collected = collected s @ its, offset = offset s + length its,
                    trace = trace s @ [(request, length its)]\<rparr>"
    by blast
  show "\<exists>request k. trace s' = trace s @ [(request, k)]
           \<and> p_limit request = min PRODUCTS_PER_STORE (total_needed - int (length (collected s)))
           \<and> p_offset request = offset s
           \<and> 0 < k \<and> offset s' = offset s + k
           \<and> length (collected s') = length (collected s) + k"
    using its s' listing_request_limit_offset [OF request]
    by (intro exI [of _ request] exI [of _ "length its"]) simp
next
  assume a: "int (length (collected s)) < total_needed
             \<and> loop_body post store category_id total_needed s = Inr (Break s')"
  from loop_body_Break [of post store category_id total_needed s s'] a
  obtain request k added
    where request: "listing_request store category_id total_needed s = Inr request"
    and s': "s' = \<lparr>collected = collected s @ added, offset = offset s,
                    trace = trace s @ [(request, k)]\<rparr>"
    and len: "length added = min k (nat (total_needed - int (length (collected s))))"
    by blast
  show "\<exists>request k. trace s' = trace s @ [(request, k)]
           \<and> p_limit request = min PRODUCTS_PER_STORE (total_needed - int (length (collected s)))
           \<and> p_offset request = offset s
           \<and> offset s' = offset s
           \<and> length (collected s')
               = length (collected s) + min k (nat (total_needed - int (length (collected s))))"
    using s' len listing_request_limit_offset [OF request]
    by (intro exI [of _ request] exI [of _ k]) simp
next
  assume "finished_state (collect_loop post store category_id total_needed initial_state) = Some f"
  then have run: "collect_loop post store category_id total_needed initial_state = Inr (Finished f)"
    by (cases "collect_loop post store category_id total_needed initial_state" rule: finished_state.cases)
       simp_all
  from collect_loop_Finished [OF run]
  show "requests_paginate total_needed 0 0 (trace f)"
    and "offset f = sum_list (map snd (butlast (trace f)))"
    by (auto simp: initial_state_def)
next
  show "map_option (\<lambda>s. (length (trace s), length (collected s)))
        (finished_state (collect_loop example_listing example_store 2 5 initial_state))
       = Some (2, 5)"
    by (simp add: example_run_5)
qed

text \<open>
  The second iteration on the example source with ten items required goes on to a third:
  it asks for seven items at offset 3, gets three, and moves the offset to 6.
\<close>

theorem pagination_requests_witness:
  "\<exists>request k.
     [(\<lparr>p_categoryId = 2, p_limit = 7, p_offset = 3, p_regionId = PInt 3,
         p_pickupStoreId = PInt 3135\<rparr>, 3 :: nat)] = [(request, k)]
     \<and> p_limit request = min PRODUCTS_PER_STORE (10 - 3) \<and> p_offset request = 3 \<and> 0 < k
     \<and> 3 + 3 = 3 + k"
proof -
  let ?s = "\<lparr>collected = [example_item 1, example_item 2, example_item 3], offset = 3,
             trace = []\<rparr>"
  let ?s' = "\<lparr>collected = [example_item 1, example_item 2, example_item 3,
                            example_item 4, example_item 5, example_item 6], offset = 6,
              trace = [(\<lparr>p_categoryId = 2, p_limit = 7, p_offset = 3, p_regionId = PInt 3,
                         p_pickupStoreId = PInt 3135\<rparr>, 3)]\<rparr>"
  have "int (length (collected ?s)) < 10
          \<and> loop_body example_listing example_store 2 10 ?s = Inr (Continue ?s')"
    by (simp add: example_body example_page_def py_slice_to_def Let_def)
  with pagination_requests [of ?s 10 example_listing example_store 2 ?s']
  show ?thesis
    by simp
qed

text \<open>
  C7, as the specification states it, fails for a transport failure: \<open>session.post\<close> raises,
  nothing in \<open>get_products\<close> catches the exception, and no result is returned.
\<close>

theorem get_products_transport_failure_counterexample:
  "LentaAPI_get_products basic_case (\<lambda>request. Inl ClientError) example_store 2 5
     = Inl ClientError
   \<and> LentaAPI_get_products basic_case (\<lambda>request. Inl ClientError) example_store 2 5 \<noteq> Inr []"
proof -
  have body: "loop_body (\<lambda>request. Inl ClientError) example_store 2 5 initial_state
                = Inl ClientError"
    by (simp add: loop_body_def example_request bind_err_def)
  have "int (length (collected initial_state)) < 5"
    by (simp add: initial_state_def)
  then have "collect_loop (\<lambda>request. Inl ClientError) example_store 2 5 initial_state
               = Inl ClientError"
    by (subst collect_loop.simps) (simp add: body)
  then show ?thesis
    by (simp add: LentaAPI_get_products_def bind_err_def example_store_def)
qed

text \<open>
  C7, amended. Take any request of a collection: the loop started in the initial state
  comes to an iteration in state \<open>s\<close>, which sends \<open>request\<close>. When the response has a status
  other than 200, \<open>get_products\<close> logs an error and returns the empty list, whatever was
  collected before. When the request raises, the exception leaves \<open>get_products\<close>, and no
  list is returned. In the loop over the cities of \<open>main\<close> neither case is fatal: for the
  first an empty file (its header only) is written, for the second the exception is
  caught and logged and no file is written.
\<close>

theorem get_products_failed_request:
  assumes "reaches post store category_id total_needed initial_state s"
    and "int (length (collected s)) < total_needed"
    and "listing_request store category_id total_needed s = Inr request"
    and "py_getitem store (ustr ''title'') = Inr title"
  shows "(post request = Inr response \<and> status response \<noteq> 200
          \<longrightarrow> LentaAPI_get_products cc post store category_id total_needed = Inr []
              \<and> LentaAPI_get_products_errors post store category_id total_needed
                  = [Status_error (status response) (p_pickupStoreId request)])
       \<and> (post request = Inl e
          \<longrightarrow> LentaAPI_get_products cc post store category_id total_needed = Inl e)
       \<and> (LentaAPI_get_store city = Inr store
            \<and> config_getitem CATEGORY_BY_CITY city = Inr category_id
            \<and> total_needed = PRODUCTS_PER_STORE
          \<longrightarrow> (post request = Inr response \<and> status response \<noteq> 200
               \<longrightarrow> main_city cc post city
                     = (Some [map PStr REQUIRED_COLUMNS],
                        [Status_error (status response) (p_pickupStoreId request)]))
              \<and> (post request = Inl e
               \<longrightarrow> main_city cc post city = (None, [City_error e])))"
proof -
  have run: "collect_loop post store category_id total_needed initial_state
               = collect_loop post store category_id total_needed s"
    by (rule collect_loop_reaches [OF assms(1)])
  from assms(3) obtain region store_id
    where sid: "py_getitem store (ustr ''id'') = Inr store_id"
      and pid: "p_pickupStoreId request = store_id"
    by (auto simp: listing_request_def bind_err_def Let_def split: sum.splits)
  have truthy: "py_truthy store"
    using sid by (cases store) auto
  have abort: "LentaAPI_get_products cc post store category_id total_needed = Inr []
               \<and> LentaAPI_get_products_errors post store category_id total_needed
                   = [Status_error (status response) (p_pickupStoreId request)]"
    if "post request = Inr response" and "status response \<noteq> 200"
  proof -
    from that assms(3) have "loop_body post store category_id total_needed s
                               = Inr (Return_empty (status response))"
      by (simp add: loop_body_def bind_err_def)
    with assms(2) run have "collect_loop post store category_id total_needed initial_state
                              = Inr (Aborted (status response))"
      by (simp add: collect_loop.simps [of post store category_id total_needed s])
    then show ?thesis
      using truthy sid pid assms(4)
      by (simp add: LentaAPI_get_products_def LentaAPI_get_products_errors_def bind_err_def)
  qed
  have raise: "LentaAPI_get_products cc post store category_id total_needed = Inl e
               \<and> LentaAPI_get_products_errors post store category_id total_needed = []"
    if "post request = Inl e"
  proof -
    from that assms(3) have "loop_body post store category_id total_needed s = Inl e"
      by (simp add: loop_body_def bind_err_def)
    with assms(2) run have "collect_loop post store category_id total_needed initial_state = Inl e"
      by (simp add: collect_loop.simps [of post store category_id total_needed s])
    then show ?thesis
      using truthy sid assms(4)
      by (simp add: LentaAPI_get_products_def LentaAPI_get_products_errors_def bind_err_def)
  qed
  have written: "CSVWriter_write_products [] = ([map PStr REQUIRED_COLUMNS], None)"
    by (simp add: CSVWriter_write_products_def)
  show ?thesis
    using abort raise written by (auto simp: main_city_def)
qed

text \<open>
  On the example source, the request for the second page is answered with status 500, or
  raises: the three items of the first page are not returned.
\<close>

theorem get_products_failed_request_witness:
  "LentaAPI_get_products basic_case
     (example_failing_listing (Inr (HttpResponse 500 (Inl ValueError)))) example_store 2 5 = Inr []
   \<and> LentaAPI_get_products_errors
     (example_failing_listing (Inr (HttpResponse 500 (Inl ValueError)))) example_store 2 5
       = [Status_error 500 (PInt 3135)]
   \<and> LentaAPI_get_products basic_case
     (example_failing_listing (Inl ClientError)) example_store 2 5 = Inl ClientError"
proof -
  let ?s = "\<lparr>collected = [example_item 1, example_item 2, example_item 3], offset = 3,
             trace = [(\<lparr>p_categoryId = 2, p_limit = 5, p_offset = 0, p_regionId = PInt 3,
                        p_pickupStoreId = PInt 3135\<rparr>, 3)]\<rparr>"
  let ?request = "\<lparr>p_categoryId = 2, p_limit = 2, p_offset = 3, p_regionId = PInt 3,
                   p_pickupStoreId = PInt 3135\<rparr>"
  have first: "loop_body (example_failing_listing failure) example_store 2 5 initial_state
                 = Inr (Continue ?s)" for failure
    by (simp add: loop_body_def example_request example_failing_listing_def example_listing_def
        example_page_def bind_err_def initial_state_def py_slice_to_def Let_def)
  have reach: "reaches (example_failing_listing failure) example_store 2 5 initial_state ?s"
    for failure
    by (rule reaches_next [OF reaches_start _ first]) (simp add: initial_state_def)
  have more: "int (length (collected ?s)) < 5"
    by simp
  have request: "listing_request example_store 2 5 ?s = Inr ?request"
    by (simp add: example_request)
  have title: "py_getitem example_store (ustr ''title'') = Inr (PStr (ustr ''Lenta''))"
    by (simp add: example_store_def)
  show ?thesis
    using get_products_failed_request
        [OF reach [of "Inr (HttpResponse 500 (Inl ValueError))"] more request title,
         where response = "HttpResponse 500 (Inl ValueError)" and cc = basic_case]
      get_products_failed_request
        [OF reach [of "Inl ClientError"] more request title,
         where e = ClientError and cc = basic_case]
    by (simp add: example_failing_listing_def)
qed

section \<open>The results of the tasks, in any order of completion\<close>

lemma mset_map_filter:
  "mset (List.map_filter f xs) = image_mset (the \<circ> f) (filter_mset (\<lambda>x. f x \<noteq> None) (mset xs))"
  by (simp add: List.map_filter_def)

lemma length_map_filter:
  "length (List.map_filter f xs) = length xs - length (filter (\<lambda>x. f x = None) xs)"
proof -
  have "length (filter (\<lambda>x. f x \<noteq> None) xs) + length (filter (\<lambda>x. f x = None) xs) = length xs"
    using sum_length_filter_compl [of "\<lambda>x. f x \<noteq> None" xs] by simp
  then show ?thesis
    by (simp add: List.map_filter_def)
qed

text \<open>
  Whatever order the tasks complete in, the results are the records of the products that
  have one, each as often as the product is in the input.
\<close>

lemma process_products_parallel_mset:
  assumes "mset order = mset [0..<length products]"
  shows "mset (process_products_parallel fetch order products)
           = mset (List.map_filter (ProductParser_parse_product fetch) products)"
proof -
  have "mset (map ((!) products) order) = mset (map ((!) products) [0..<length products])"
    using assms by (simp only: mset_map)
  then have perm: "mset (map ((!) products) order) = mset products"
    by (simp only: map_nth)
  have "process_products_parallel fetch order products
          = List.map_filter (ProductParser_parse_product fetch) (map ((!) products) order)"
    by (simp add: process_products_parallel_def List.map_filter_def filter_map comp_def)
  then show ?thesis
    by (simp only: mset_map_filter perm)
qed

lemma process_products_parallel_length:
  assumes "mset order = mset [0..<length products]"
  shows "length (process_products_parallel fetch order products)
           = length products
             - length (filter (\<lambda>p. ProductParser_parse_product fetch p = None) products)"
proof -
  have "length (process_products_parallel fetch order products)
          = size (mset (process_products_parallel fetch order products))"
    by simp
  also have "\<dots> = length (List.map_filter (ProductParser_parse_product fetch) products)"
    by (simp only: process_products_parallel_mset [OF assms] size_mset)
  finally show ?thesis
    by (simp only: length_map_filter)
qed

section \<open>The claims on prices\<close>

lemma py_or_float_zero: "py_or (PFloat x) (PFloat 0) = PFloat x"
  by (simp add: py_or_def)

lemma py_or_None: "py_or PNone y = y"
  by (simp add: py_or_def)

lemma py_truediv_100_int:
  "py_truediv_100 (PInt r) = Inr v \<Longrightarrow> \<exists>x. round_double r 100 = Some x \<and> v = PFloat x"
  by (auto simp: float_div_100_def split: option.splits)

lemma price_in_roubles_int:
  "price_in_roubles (PInt r) = Inr v \<Longrightarrow> \<exists>x. round_double r 100 = Some x \<and> v = PFloat x"
  by (simp add: price_in_roubles_def py_truediv_100_int)

lemma price_in_roubles_None: "price_in_roubles PNone = Inr PNone"
  by (simp add: price_in_roubles_def)

text \<open>What the record of a product is made of, when \<open>parse_product\<close> gives one.\<close>

lemma parse_product_Some:
  assumes "ProductParser_parse_product fetch product_data = Some rec"
  shows "\<exists>prices regular promo b.
           py_get product_data (ustr ''prices'') (PDict []) = Inr (PDict prices)
           \<and> price_in_roubles (case map_of prices (ustr ''priceRegular'') of
                                  None \<Rightarrow> PNone | Some v \<Rightarrow> v) = Inr regular
           \<and> price_in_roubles (case map_of prices (ustr ''price'') of
                                  None \<Rightarrow> PNone | Some v \<Rightarrow> v) = Inr promo
           \<and> py_get product_data (ustr ''id'') PNone = Inr (product_id rec)
           \<and> py_truthy (product_id rec)
           \<and> ProductParser_extract_brand (LentaAPI_get_product_details fetch (product_id rec))
               = Inr b
           \<and> py_get product_data (ustr ''name'') (PStr []) = Inr (product_name rec)
           \<and> regular_price rec = py_or regular (PFloat 0)
           \<and> promo_price rec = py_or promo (PFloat 0)
           \<and> brand rec = py_or b (PStr [])"
proof -
  from assms have body: "parse_product_body fetch product_data = Inr (Some rec)"
    by (simp add: ProductParser_parse_product_def split: sum.splits)
  then obtain pv where pv: "py_get product_data (ustr ''prices'') (PDict []) = Inr pv"
    by (cases "py_get product_data (ustr ''prices'') (PDict [])")
       (simp_all add: parse_product_body_def bind_err_def)
  from body pv obtain a where a: "py_get pv (ustr ''priceRegular'') PNone = Inr a"
    by (cases "py_get pv (ustr ''priceRegular'') PNone")
       (simp_all add: parse_product_body_def bind_err_def)
  then obtain prices where prices: "pv = PDict prices"
    by (cases pv) simp_all
  from body pv a obtain regular where regular: "price_in_roubles a = Inr regular"
    by (cases "price_in_roubles a") (simp_all add: parse_product_body_def bind_err_def)
  from prices have "\<exists>p. py_get pv (ustr ''price'') PNone = Inr p"
    by simp
  then obtain p where p: "py_get pv (ustr ''price'') PNone = Inr p"
    by blast
  from body pv a regular p obtain promo where promo: "price_in_roubles p = Inr promo"
    by (cases "price_in_roubles p") (simp_all add: parse_product_body_def bind_err_def)
  from body pv a regular p promo obtain pid
    where pid: "py_get product_data (ustr ''id'') PNone = Inr pid"
    by (cases "py_get product_data (ustr ''id'') PNone")
       (simp_all add: parse_product_body_def bind_err_def)
  from body pv a regular p promo pid have truthy: "py_truthy pid"
    by (cases "py_truthy pid") (simp_all add: parse_product_body_def bind_err_def)
  from body pv a regular p promo pid truthy obtain b
    where b: "ProductParser_extract_brand (LentaAPI_get_product_details fetch pid) = Inr b"
    by (cases "ProductParser_extract_brand (LentaAPI_get_product_details fetch pid)")
       (simp_all add: parse_product_body_def bind_err_def)
  from body pv a regular p promo pid truthy b obtain name
    where name: "py_get product_data (ustr ''name'') (PStr []) = Inr name"
    by (cases "py_get product_data (ustr ''name'') (PStr [])")
       (simp_all add: parse_product_body_def bind_err_def)
  from body pv a regular p promo pid truthy b name
  have rec: "rec = \<lparr>product_id = pid, product_name = name,
                    regular_price = py_or regular (PFloat 0),
                    promo_price = py_or promo (PFloat 0), brand = py_or b (PStr [])\<rparr>"
    by (simp add: parse_product_body_def bind_err_def)
  from a p prices regular promo
  have "price_in_roubles (case map_of prices (ustr ''priceRegular'') of
                            None \<Rightarrow> PNone | Some v \<Rightarrow> v) = Inr regular"
    and "price_in_roubles (case map_of prices (ustr ''price'') of
                            None \<Rightarrow> PNone | Some v \<Rightarrow> v) = Inr promo"
    by auto
  with pv prices pid truthy b name rec show ?thesis
    by simp
qed

text \<open>The converse: from these parts, \<open>parse_product\<close> makes the record.\<close>

lemma parse_product_intro:
  assumes "py_get product_data (ustr ''prices'') (PDict []) = Inr (PDict prices)"
    and "price_in_roubles (case map_of prices (ustr ''priceRegular'') of
                             None \<Rightarrow> PNone | Some v \<Rightarrow> v) = Inr regular"
    and "price_in_roubles (case map_of prices (ustr ''price'') of
                             None \<Rightarrow> PNone | Some v \<Rightarrow> v) = Inr promo"
    and "py_get product_data (ustr ''id'') PNone = Inr pid"
    and "py_truthy pid"
    and "ProductParser_extract_brand (LentaAPI_get_product_details fetch pid) = Inr b"
    and "py_get product_data (ustr ''name'') (PStr []) = Inr name"
  shows "ProductParser_parse_product fetch product_data
           = Some \<lparr>product_id = pid, product_name = name,
                   regular_price = py_or regular (PFloat 0),
                   promo_price = py_or promo (PFloat 0), brand = py_or b (PStr [])\<rparr>"
  using assms
  by (simp add: ProductParser_parse_product_def parse_product_body_def bind_err_def)

lemma format_product_Inr:
  assumes "format_product cc item = Inr out"
  shows "\<exists>item_id name prices pr regular p promo b.
           py_getitem item (ustr ''id'') = Inr item_id
           \<and> py_get item (ustr ''name'') (PStr []) = Inr name
           \<and> py_getitem item (ustr ''prices'') = Inr prices
           \<and> py_getitem prices (ustr ''priceRegular'') = Inr pr
           \<and> py_truediv_100 pr = Inr regular
           \<and> py_getitem prices (ustr ''price'') = Inr p
           \<and> py_truediv_100 p = Inr promo
           \<and> LentaAPI_extract_brand cc item = Inr b
           \<and> out = PDict [(ustr ''id'', item_id), (ustr ''name'', name),
                           (ustr ''regular_price'', regular), (ustr ''promo_price'', promo),
                           (ustr ''brand'', b)]"
  using assms
  by (auto simp: format_product_def bind_err_def split: sum.splits)

text \<open>
  C6. The records that \<open>get_products\<close> returns are those of the items it collected, in
  their order; when the prices of an item are integers \<open>r\<close> and \<open>p\<close>, the prices of its
  record are the floats \<open>r / 100\<close> and \<open>p / 100\<close>, as they are in what the comprehension
  makes of any item. In the pipeline of oop_test.py every record of the output is the one
  \<open>parse_product\<close> makes of a product of the input; a price of the product that is an
  integer \<open>r\<close> becomes the float \<open>r / 100\<close> in it, and a price that is missing, or all the
  prices missing, gives 0.0. The float \<open>r / 100\<close> is the double nearest to that quotient:
  it differs from the quotient by at most the quotient times \<open>2 ^ (-53)\<close>. For 12999 it is
  the double that 129.99 denotes, \<open>4573616527827272 / 2 ^ 45\<close>, which lies within half a
  spacing, \<open>2 ^ (-46)\<close>, of 129.99.
\<close>

theorem price_normalization:
  "(LentaAPI_get_products cc post store category_id total_needed = Inr records
      \<and> finished_state (collect_loop post store category_id total_needed initial_state) = Some s
      \<and> i < length records
      \<and> py_slice_to (collected s) total_needed ! i = PDict kvs
      \<and> map_of kvs (ustr ''prices'') = Some (PDict ps)
      \<and> map_of ps (ustr ''priceRegular'') = Some (PInt r)
      \<and> map_of ps (ustr ''price'') = Some (PInt p)
    \<longrightarrow> (\<exists>x y. round_double r 100 = Some x \<and> round_double p 100 = Some y
           \<and> py_getitem (records ! i) (ustr ''regular_price'') = Inr (PFloat x)
           \<and> py_getitem (records ! i) (ustr ''promo_price'') = Inr (PFloat y)))
   \<and> (format_product cc (PDict kvs) = Inr out
      \<and> map_of kvs (ustr ''prices'') = Some (PDict ps)
      \<and> map_of ps (ustr ''priceRegular'') = Some (PInt r)
      \<and> map_of ps (ustr ''price'') = Some (PInt p)
    \<longrightarrow> (\<exists>x y. round_double r 100 = Some x \<and> round_double p 100 = Some y
           \<and> py_getitem out (ustr ''regular_price'') = Inr (PFloat x)
           \<and> py_getitem out (ustr ''promo_price'') = Inr (PFloat y)))
   \<and> (mset order = mset [0..<length products]
      \<and> made \<in> set (process_products_parallel fetch order products)
    \<longrightarrow> (\<exists>product \<in> set products. ProductParser_parse_product fetch product = Some made))
   \<and> (ProductParser_parse_product fetch (PDict kvs) = Some rec
      \<and> map_of kvs (ustr ''prices'') = Some (PDict ps)
    \<longrightarrow> (map_of ps (ustr ''priceRegular'') = Some (PInt r)
           \<longrightarrow> (\<exists>x. round_double r 100 = Some x \<and> regular_price rec = PFloat x))
        \<and> (map_of ps (ustr ''price'') = Some (PInt p)
           \<longrightarrow> (\<exists>y. round_double p 100 = Some y \<and> promo_price rec = PFloat y))
        \<and> (map_of ps (ustr ''priceRegular'') = None \<longrightarrow> regular_price rec = PFloat 0)
        \<and> (map_of ps (ustr ''price'') = None \<longrightarrow> promo_price rec = PFloat 0))
   \<and> (ProductParser_parse_product fetch (PDict kvs) = Some rec
      \<and> map_of kvs (ustr ''prices'') = None
    \<longrightarrow> regular_price rec = PFloat 0 \<and> promo_price rec = PFloat 0)
   \<and> (round_double n 100 = Some z
    \<longrightarrow> \<bar>z - of_int n / 100\<bar> \<le> \<bar>of_int n / 100\<bar> / 2 ^ 53)
   \<and> round_double 12999 100 = Some (4573616527827272 / 2 ^ 45)
   \<and> \<bar>4573616527827272 / 2 ^ 45 - 12999 / 100\<bar> \<le> (1 / 2 ^ 46 :: rat)"
proof -
  have inline: "\<exists>x y. round_double r 100 = Some x \<and> round_double p 100 = Some y
             \<and> py_getitem out (ustr ''regular_price'') = Inr (PFloat x)
             \<and> py_getitem out (ustr ''promo_price'') = Inr (PFloat y)"
    if a: "format_product cc (PDict kvs) = Inr out
      \<and> map_of kvs (ustr ''prices'') = Some (PDict ps)
      \<and> map_of ps (ustr ''priceRegular'') = Some (PInt r)
      \<and> map_of ps (ustr ''price'') = Some (PInt p)" for out
  proof -
    from format_product_Inr [of cc "PDict kvs" out] a
    obtain item_id name regular promo b
      where regular: "py_truediv_100 (PInt r) = Inr regular"
        and promo: "py_truediv_100 (PInt p) = Inr promo"
        and out: "out = PDict [(ustr ''id'', item_id), (ustr ''name'', name),
                               (ustr ''regular_price'', regular), (ustr ''promo_price'', promo),
                               (ustr ''brand'', b)]"
      by auto
    from py_truediv_100_int [OF regular] py_truediv_100_int [OF promo] out
    show ?thesis
      by auto
  qed
  have collected: "\<exists>x y. round_double r 100 = Some x \<and> round_double p 100 = Some y
             \<and> py_getitem (records ! i) (ustr ''regular_price'') = Inr (PFloat x)
             \<and> py_getitem (records ! i) (ustr ''promo_price'') = Inr (PFloat y)"
    if a: "LentaAPI_get_products cc post store category_id total_needed = Inr records
      \<and> finished_state (collect_loop post store category_id total_needed initial_state) = Some s
      \<and> i < length records
      \<and> py_slice_to (collected s) total_needed ! i = PDict kvs
      \<and> map_of kvs (ustr ''prices'') = Some (PDict ps)
      \<and> map_of ps (ustr ''priceRegular'') = Some (PInt r)
      \<and> map_of ps (ustr ''price'') = Some (PInt p)"
  proof -
    from a have "LentaAPI_get_products cc post store category_id total_needed = Inr records"
      and "finished_state (collect_loop post store category_id total_needed initial_state)
             = Some s"
      by simp_all
    then have "list_all2 (\<lambda>item r. format_product cc item = Inr r)
                 (py_slice_to (collected s) total_needed) records"
      by (rule get_products_records)
    with a have "format_product cc (PDict kvs) = Inr (records ! i)"
      by (auto dest: list_all2_nthD2)
    with a inline [of "records ! i"] show ?thesis
      by blast
  qed
  have parallel: "\<exists>product \<in> set products. ProductParser_parse_product fetch product = Some made"
    if a: "mset order = mset [0..<length products]
      \<and> made \<in> set (process_products_parallel fetch order products)"
  proof -
    from a have "mset (process_products_parallel fetch order products)
                   = mset (List.map_filter (ProductParser_parse_product fetch) products)"
      by (intro process_products_parallel_mset) simp
    then have "set (process_products_parallel fetch order products)
                 = set (List.map_filter (ProductParser_parse_product fetch) products)"
      by (rule mset_eq_setD)
    with a show ?thesis
      by (auto simp: List.map_filter_def)
  qed
  have detail: "(map_of ps (ustr ''priceRegular'') = Some (PInt r)
           \<longrightarrow> (\<exists>x. round_double r 100 = Some x \<and> regular_price rec = PFloat x))
        \<and> (map_of ps (ustr ''price'') = Some (PInt p)
           \<longrightarrow> (\<exists>y. round_double p 100 = Some y \<and> promo_price rec = PFloat y))
        \<and> (map_of ps (ustr ''priceRegular'') = None \<longrightarrow> regular_price rec = PFloat 0)
        \<and> (map_of ps (ustr ''price'') = None \<longrightarrow> promo_price rec = PFloat 0)"
    if a: "ProductParser_parse_product fetch (PDict kvs) = Some rec
        \<and> map_of kvs (ustr ''prices'') = Some (PDict ps)"
  proof -
    from parse_product_Some [of fetch "PDict kvs" rec] a
    obtain regular promo
      where regular: "price_in_roubles (case map_of ps (ustr ''priceRegular'') of
                                          None \<Rightarrow> PNone | Some v \<Rightarrow> v) = Inr regular"
        and promo: "price_in_roubles (case map_of ps (ustr ''price'') of
                                        None \<Rightarrow> PNone | Some v \<Rightarrow> v) = Inr promo"
        and rec: "regular_price rec = py_or regular (PFloat 0)"
                 "promo_price rec = py_or promo (PFloat 0)"
      by auto
    have r1: "map_of ps (ustr ''priceRegular'') = Some (PInt r)
            \<longrightarrow> (\<exists>x. round_double r 100 = Some x \<and> regular_price rec = PFloat x)"
    proof
      assume "map_of ps (ustr ''priceRegular'') = Some (PInt r)"
      with regular have "price_in_roubles (PInt r) = Inr regular"
        by simp
      from price_in_roubles_int [OF this]
      obtain x where "round_double r 100 = Some x" and "regular = PFloat x"
        by blast
      with rec(1) show "\<exists>x. round_double r 100 = Some x \<and> regular_price rec = PFloat x"
        by (simp add: py_or_float_zero)
    qed
    have r2: "map_of ps (ustr ''price'') = Some (PInt p)
            \<longrightarrow> (\<exists>y. round_double p 100 = Some y \<and> promo_price rec = PFloat y)"
    proof
      assume "map_of ps (ustr ''price'') = Some (PInt p)"
      with promo have "price_in_roubles (PInt p) = Inr promo"
        by simp
      from price_in_roubles_int [OF this]
      obtain y where "round_double p 100 = Some y" and "promo = PFloat y"
        by blast
      with rec(2) show "\<exists>y. round_double p 100 = Some y \<and> promo_price rec = PFloat y"
        by (simp add: py_or_float_zero)
    qed
    have r3: "map_of ps (ustr ''priceRegular'') = None \<longrightarrow> regular_price rec = PFloat 0"
      using regular rec(1) by (auto simp: price_in_roubles_None py_or_None)
    have r4: "map_of ps (ustr ''price'') = None \<longrightarrow> promo_price rec = PFloat 0"
      using promo rec(2) by (auto simp: price_in_roubles_None py_or_None)
    show ?thesis
      by (intro conjI r1 r2 r3 r4)
  qed
  have no_prices: "regular_price rec = PFloat 0 \<and> promo_price rec = PFloat 0"
    if a: "ProductParser_parse_product fetch (PDict kvs) = Some rec
        \<and> map_of kvs (ustr ''prices'') = None"
    using parse_product_Some [of fetch "PDict kvs" rec] a
    by (auto simp: price_in_roubles_None py_or_None)
  have nearest: "\<bar>z - of_int n / 100\<bar> \<le> \<bar>of_int n / 100\<bar> / 2 ^ 53"
    if "round_double n 100 = Some z"
    using that by (rule round_double_100_relative)
  show ?thesis
    using collected inline [of out] parallel detail no_prices nearest
      round_double_12999 nearest_12999
    by blast
qed

text \<open>
  Ten items required of the example source, whose items have the prices 12999 and 9900:
  the fifth record has the prices 129.99 and 99.0. And an item with the regular price
  12999 and no other price, in the pipeline of oop_test.py.
\<close>

theorem price_normalization_witness:
  "(\<exists>records. LentaAPI_get_products basic_case example_listing example_store 2 10 = Inr records
      \<and> py_getitem (records ! 4) (ustr ''regular_price'')
          = Inr (PFloat (4573616527827272 / 2 ^ 45))
      \<and> py_getitem (records ! 4) (ustr ''promo_price'') = Inr (PFloat 99))
   \<and> map_option regular_price
       (ProductParser_parse_product example_detail_request
          (PDict [(ustr ''id'', PInt 7),
                  (ustr ''prices'', PDict [(ustr ''priceRegular'', PInt 12999)])]))
       = Some (PFloat (4573616527827272 / 2 ^ 45))
   \<and> map_option promo_price
       (ProductParser_parse_product example_detail_request
          (PDict [(ustr ''id'', PInt 7),
                  (ustr ''prices'', PDict [(ustr ''priceRegular'', PInt 12999)])]))
       = Some (PFloat 0)"
proof -
  let ?ps = "[(ustr ''priceRegular'', PInt 12999), (ustr ''price'', PInt 9900)]"
  let ?kvs = "[(ustr ''id'', PInt 5), (ustr ''name'', PStr (ustr ''COCA COLA Light'')),
               (ustr ''prices'', PDict ?ps), (ustr ''attributes'', PList [])]"
  let ?s = "\<lparr>collected = [example_item 1, example_item 2, example_item 3,
                          example_item 4, example_item 5, example_item 6],
            offset = 6,
            trace = [(\<lparr>p_categoryId = 2, p_limit = 10, p_offset = 0, p_regionId = PInt 3,
                       p_pickupStoreId = PInt 3135\<rparr>, 3),
                     (\<lparr>p_categoryId = 2, p_limit = 7, p_offset = 3, p_regionId = PInt 3,
                       p_pickupStoreId = PInt 3135\<rparr>, 3),
                     (\<lparr>p_categoryId = 2, p_limit = 4, p_offset = 6, p_regionId = PInt 3,
                       p_pickupStoreId = PInt 3135\<rparr>, 0)]\<rparr>"
  let ?qs = "[(ustr ''priceRegular'', PInt 12999)]"
  let ?item = "[(ustr ''id'', PInt 7), (ustr ''prices'', PDict ?qs)]"
  let ?rec = "\<lparr>product_id = PInt 7, product_name = PStr [],
               regular_price = PFloat (4573616527827272 / 2 ^ 45), promo_price = PFloat 0,
               brand = PStr []\<rparr>"
  obtain records
    where records: "LentaAPI_get_products basic_case example_listing example_store 2 10
                      = Inr records"
    using example_get_products_10 by blast
  have run: "finished_state (collect_loop example_listing example_store 2 10 initial_state)
               = Some ?s"
    by (simp add: example_run_10)
  from get_products_records [OF records run] have "length records = 6"
    by (simp add: py_slice_to_def list_all2_lengthD [symmetric])
  then have index: "4 < length records"
    by simp
  have item: "py_slice_to (collected ?s) 10 ! 4 = PDict ?kvs"
    by (simp add: py_slice_to_def example_item_def)
  have prices: "map_of ?kvs (ustr ''prices'') = Some (PDict ?ps)"
    "map_of ?ps (ustr ''priceRegular'') = Some (PInt 12999)"
    "map_of ?ps (ustr ''price'') = Some (PInt 9900)"
    by simp_all
  from price_normalization [where cc = basic_case and post = example_listing
      and store = example_store and category_id = 2 and total_needed = 10
      and records = records and s = ?s and i = 4 and kvs = ?kvs and ps = ?ps
      and r = 12999 and p = 9900]
    records run index item prices
  obtain x y where "round_double 12999 100 = Some x" and "round_double 9900 100 = Some y"
    and "py_getitem (records ! 4) (ustr ''regular_price'') = Inr (PFloat x)"
    and "py_getitem (records ! 4) (ustr ''promo_price'') = Inr (PFloat y)"
    by blast
  then have inline: "py_getitem (records ! 4) (ustr ''regular_price'')
                       = Inr (PFloat (4573616527827272 / 2 ^ 45))
                     \<and> py_getitem (records ! 4) (ustr ''promo_price'') = Inr (PFloat 99)"
    by (simp add: round_double_12999 round_double_9900)
  have "price_in_roubles (PInt 12999) = Inr (PFloat (4573616527827272 / 2 ^ 45))"
    by (simp add: price_in_roubles_def float_div_100_def round_double_12999)
  then have rec: "ProductParser_parse_product example_detail_request (PDict ?item) = Some ?rec"
    using parse_product_intro [of "PDict ?item" ?qs "PFloat (4573616527827272 / 2 ^ 45)" PNone
        "PInt 7" example_detail_request PNone "PStr []"]
    by (simp add: price_in_roubles_None py_or_def ProductParser_extract_brand_def
        LentaAPI_get_product_details_def example_detail_request_def)
  then have detail: "ProductParser_parse_product example_detail_request (PDict ?item) = Some ?rec
      \<and> map_of ?item (ustr ''prices'') = Some (PDict ?qs)"
    by simp
  have missing: "map_of ?qs (ustr ''priceRegular'') = Some (PInt 12999)"
    "map_of ?qs (ustr ''price'') = None"
    by simp_all
  from price_normalization [where fetch = example_detail_request and kvs = ?item and rec = ?rec
      and ps = ?qs and r = 12999] detail missing
  have "(\<exists>x. round_double 12999 100 = Some x \<and> regular_price ?rec = PFloat x)
        \<and> promo_price ?rec = PFloat 0"
    by blast
  then have "regular_price ?rec = PFloat (4573616527827272 / 2 ^ 45)
             \<and> promo_price ?rec = PFloat 0"
    by (simp add: round_double_12999)
  with records inline show ?thesis
    unfolding rec by auto
qed

section \<open>The claims on the pipeline of oop_test.py\<close>

text \<open>An identifier that is missing or false: no record, whatever else the product holds.\<close>

lemma parse_product_no_id:
  assumes "case py_get product_data (ustr ''id'') PNone of
             Inl e \<Rightarrow> True | Inr pid \<Rightarrow> \<not> py_truthy pid"
  shows "ProductParser_parse_product fetch product_data = None"
proof (cases "ProductParser_parse_product fetch product_data")
  case (Some rec)
  from parse_product_Some [OF Some] assms show ?thesis
    by auto
qed simp

text \<open>
  C9. A product whose identifier is present but is 0 or the empty string has no record,
  as a product without identifier has none; whatever order the tasks complete in, the
  output is the one for the input without that product.
\<close>

theorem parse_product_falsy_id:
  assumes "map_of kvs (ustr ''id'') = Some v" and "v = PInt 0 \<or> v = PStr []"
  shows "ProductParser_parse_product fetch (PDict kvs) = None
       \<and> ProductParser_parse_product fetch
           (PDict (filter (\<lambda>kv. fst kv \<noteq> ustr ''id'') kvs)) = None
       \<and> (mset order = mset [0..<length (before @ PDict kvs # after)]
          \<longrightarrow> mset (process_products_parallel fetch order (before @ PDict kvs # after))
              = mset (List.map_filter (ProductParser_parse_product fetch) (before @ after)))"
proof -
  have present: "ProductParser_parse_product fetch (PDict kvs) = None"
    using assms by (intro parse_product_no_id) auto
  have "map_of (filter (\<lambda>kv. fst kv \<noteq> ustr ''id'') kvs) (ustr ''id'') = None"
    by (induction kvs) auto
  then have missing: "ProductParser_parse_product fetch
                        (PDict (filter (\<lambda>kv. fst kv \<noteq> ustr ''id'') kvs)) = None"
    by (intro parse_product_no_id) simp
  have "List.map_filter (ProductParser_parse_product fetch) (before @ PDict kvs # after)
          = List.map_filter (ProductParser_parse_product fetch) (before @ after)"
    using present by (simp add: List.map_filter_def)
  then show ?thesis
    using present missing process_products_parallel_mset [of order "before @ PDict kvs # after" fetch]
    by simp
qed

text \<open>
  Three products, the second with the identifier 0, completing in the order third, first,
  second: the records of the third and the first.
\<close>

theorem parse_product_falsy_id_witness:
  "ProductParser_parse_product example_detail_request (PDict [(ustr ''id'', PInt 0)]) = None
   \<and> mset (process_products_parallel example_detail_request [2, 0, 1]
             ([PDict [(ustr ''id'', PInt 1)]] @ PDict [(ustr ''id'', PInt 0)]
                # [PDict [(ustr ''id'', PInt 2)]]))
     = mset (List.map_filter (ProductParser_parse_product example_detail_request)
               ([PDict [(ustr ''id'', PInt 1)]] @ [PDict [(ustr ''id'', PInt 2)]]))"
proof -
  have perm: "mset [2, 0, 1 :: nat]
                = mset [0..<length ([PDict [(ustr ''id'', PInt 1)]] @ PDict [(ustr ''id'', PInt 0)]
                                     # [PDict [(ustr ''id'', PInt 2)]])]"
    by (simp add: upt_rec)
  have present: "map_of [(ustr ''id'', PInt 0)] (ustr ''id'') = Some (PInt 0)"
    by simp
  have falsy: "PInt 0 = PInt 0 \<or> PInt 0 = PStr []"
    by simp
  from parse_product_falsy_id [OF present falsy, of example_detail_request "[2, 0, 1]"
      "[PDict [(ustr ''id'', PInt 1)]]" "[PDict [(ustr ''id'', PInt 2)]]"] perm
  show ?thesis
    by blast
qed

lemma example_parse:
  assumes "n \<noteq> 0"
  shows "ProductParser_parse_product example_detail_request (PDict [(ustr ''id'', PInt n)])
           = Some \<lparr>product_id = PInt n, product_name = PStr [], regular_price = PFloat 0,
                   promo_price = PFloat 0,
                   brand = (if n = 7 then PStr [] else PStr (ustr ''Pepsi''))\<rparr>"
proof -
  have detail: "ProductParser_extract_brand
                  (LentaAPI_get_product_details example_detail_request (PInt n))
                  = Inr (if n = 7 then PNone else PStr (ustr ''Pepsi''))"
    by (simp add: ProductParser_extract_brand_def LentaAPI_get_product_details_def
        example_detail_request_def bind_err_def)
  show ?thesis
    using assms
      parse_product_intro [of "PDict [(ustr ''id'', PInt n)]" "[]" PNone PNone "PInt n"
        example_detail_request "if n = 7 then PNone else PStr (ustr ''Pepsi'')" "PStr []"]
    by (simp add: price_in_roubles_None detail py_or_def)
qed

text \<open>
  The products with a record: \<open>parse_product\<close> gives one exactly for a product that has an
  identifier and is well formed.
\<close>

lemma price_converts_iff: "price_converts v \<longleftrightarrow> (\<exists>x. price_in_roubles v = Inr x)"
  by (cases v) (auto simp: price_in_roubles_def float_div_100_def split: option.splits)

lemma attributes_scan_iff:
  "attributes_scan xs \<longleftrightarrow> (\<exists>b. detail_brand_from_attributes xs = Inr b)"
proof (induction xs)
  case (Cons x xs)
  show ?case
  proof (cases x)
    case (PDict d)
    show ?thesis
    proof (cases "is_brand_attribute d")
      case True
      then show ?thesis
        unfolding PDict
        by (simp add: detail_brand_from_attributes_hit del: detail_brand_from_attributes.simps)
    next
      case False
      with Cons show ?thesis
        unfolding PDict
        by (simp add: detail_brand_from_attributes_miss del: detail_brand_from_attributes.simps)
    qed
  qed (simp_all add: bind_err_def)
qed simp

lemma detail_scans_iff:
  "detail_scans detail \<longleftrightarrow> (\<exists>b. ProductParser_extract_brand detail = Inr b)"
proof (cases detail)
  case (PDict kvs)
  show ?thesis
    unfolding PDict
    by (cases "py_iter (case map_of kvs (ustr ''attributes'') of
                          None \<Rightarrow> PList [] | Some a \<Rightarrow> a)")
       (simp_all add: ProductParser_extract_brand_def bind_err_def attributes_scan_iff)
qed (simp_all add: ProductParser_extract_brand_def bind_err_def)

lemma parse_product_iff:
  "ProductParser_parse_product fetch product \<noteq> None
     \<longleftrightarrow> has_identifier product \<and> well_formed fetch product"
proof
  assume "ProductParser_parse_product fetch product \<noteq> None"
  then obtain found where found: "ProductParser_parse_product fetch product = Some found"
    by blast
  from parse_product_Some [OF found]
  obtain prices regular promo b where parts:
    "py_get product (ustr ''prices'') (PDict []) = Inr (PDict prices)"
    "price_in_roubles (case map_of prices (ustr ''priceRegular'') of
                         None \<Rightarrow> PNone | Some v \<Rightarrow> v) = Inr regular"
    "price_in_roubles (case map_of prices (ustr ''price'') of
                         None \<Rightarrow> PNone | Some v \<Rightarrow> v) = Inr promo"
    "py_get product (ustr ''id'') PNone = Inr (product_id found)"
    "py_truthy (product_id found)"
    "ProductParser_extract_brand (LentaAPI_get_product_details fetch (product_id found)) = Inr b"
    by blast
  from parts(1) obtain kvs where product: "product = PDict kvs"
    by (cases product) simp_all
  from parts(4,5) have ids: "has_identifier product"
    unfolding product by (auto split: option.splits)
  from parts(1) have "(case map_of kvs (ustr ''prices'') of None \<Rightarrow> PDict [] | Some v \<Rightarrow> v)
                        = PDict prices"
    unfolding product by simp
  moreover from parts(2,3)
  have "price_converts (case map_of prices (ustr ''priceRegular'') of
                          None \<Rightarrow> PNone | Some v \<Rightarrow> v)"
    and "price_converts (case map_of prices (ustr ''price'') of None \<Rightarrow> PNone | Some v \<Rightarrow> v)"
    by (auto simp: price_converts_iff)
  ultimately have prices: "prices_convert product"
    unfolding product by simp
  from parts(6) have "detail_scans (LentaAPI_get_product_details fetch (product_id found))"
    by (auto simp: detail_scans_iff)
  with parts(4,5) have "case map_of kvs (ustr ''id'') of
                          None \<Rightarrow> True
                        | Some pid \<Rightarrow> detail_scans (LentaAPI_get_product_details fetch pid)"
    unfolding product by (auto split: option.splits)
  with prices ids show "has_identifier product \<and> well_formed fetch product"
    unfolding product by simp
next
  assume a: "has_identifier product \<and> well_formed fetch product"
  then obtain kvs where product: "product = PDict kvs"
    by (cases product) simp_all
  from a obtain pid where pid: "map_of kvs (ustr ''id'') = Some pid" "py_truthy pid"
    unfolding product by (auto split: option.splits)
  from a pid have detail: "detail_scans (LentaAPI_get_product_details fetch pid)"
    unfolding product by simp
  then obtain b
    where b: "ProductParser_extract_brand (LentaAPI_get_product_details fetch pid) = Inr b"
    by (auto simp: detail_scans_iff)
  from a have "price_block_converts
                 (case map_of kvs (ustr ''prices'') of None \<Rightarrow> PDict [] | Some v \<Rightarrow> v)"
    unfolding product by simp
  then obtain prices
    where prices: "(case map_of kvs (ustr ''prices'') of None \<Rightarrow> PDict [] | Some v \<Rightarrow> v)
                     = PDict prices"
      and converts: "price_converts (case map_of prices (ustr ''priceRegular'') of
                                       None \<Rightarrow> PNone | Some v \<Rightarrow> v)"
        "price_converts (case map_of prices (ustr ''price'') of None \<Rightarrow> PNone | Some v \<Rightarrow> v)"
    by (cases "case map_of kvs (ustr ''prices'') of None \<Rightarrow> PDict [] | Some v \<Rightarrow> v") simp_all
  from converts obtain regular promo
    where regular: "price_in_roubles (case map_of prices (ustr ''priceRegular'') of
                                        None \<Rightarrow> PNone | Some v \<Rightarrow> v) = Inr regular"
      and promo: "price_in_roubles (case map_of prices (ustr ''price'') of
                                      None \<Rightarrow> PNone | Some v \<Rightarrow> v) = Inr promo"
    by (auto simp: price_converts_iff)
  have "ProductParser_parse_product fetch product
          = Some \<lparr>product_id = pid,
                  product_name = (case map_of kvs (ustr ''name'') of
                                    None \<Rightarrow> PStr [] | Some v \<Rightarrow> v),
                  regular_price = py_or regular (PFloat 0),
                  promo_price = py_or promo (PFloat 0), brand = py_or b (PStr [])\<rparr>"
    unfolding product
    by (rule parse_product_intro [OF _ regular promo _ pid(2) b])
       (simp_all add: prices pid(1))
  then show "ProductParser_parse_product fetch product \<noteq> None"
    by simp
qed

text \<open>The record of a product that has one holds its identifier and its name.\<close>

lemma parse_product_fields:
  assumes "ProductParser_parse_product fetch (PDict kvs) = Some found"
  shows "map_of kvs (ustr ''id'') = Some (product_id found)
       \<and> product_name found = (case map_of kvs (ustr ''name'') of
                                  None \<Rightarrow> PStr [] | Some v \<Rightarrow> v)"
  using parse_product_Some [OF assms] by (auto split: option.splits)

lemma length_filter_disjoint:
  "(\<And>x. \<not> (P x \<and> Q x)) \<Longrightarrow>
   length (filter (\<lambda>x. P x \<or> Q x) xs) = length (filter P xs) + length (filter Q xs)"
  by (induction xs) auto

text \<open>
  C5, as the specification states it, fails on two products with the identifiers 7 and 8
  when the detail request for 7 fails: \<open>get_product_details\<close> returns \<open>None\<close> then,
  \<open>extract_brand\<close> returns \<open>None\<close> for it, and product 7 is in the output with an empty brand.
  The output has two records, not 2 - 0 - 1.
\<close>

theorem enrich_fetch_failure_counterexample:
  "example_detail_request (PInt 7) = Inl ClientError
   \<and> process_products_parallel example_detail_request [1, 0]
       [PDict [(ustr ''id'', PInt 7)], PDict [(ustr ''id'', PInt 8)]]
     = [\<lparr>product_id = PInt 8, product_name = PStr [], regular_price = PFloat 0,
          promo_price = PFloat 0, brand = PStr (ustr ''Pepsi'')\<rparr>,
        \<lparr>product_id = PInt 7, product_name = PStr [], regular_price = PFloat 0,
          promo_price = PFloat 0, brand = PStr []\<rparr>]
   \<and> length (process_products_parallel example_detail_request [1, 0]
       [PDict [(ustr ''id'', PInt 7)], PDict [(ustr ''id'', PInt 8)]]) \<noteq> 2 - 0 - 1"
  by (simp add: process_products_parallel_def example_parse example_detail_request_def)

text \<open>
  C5, amended. Whatever order the tasks complete in, the output holds exactly the records
  of the products for which \<open>parse_product\<close> gives one, each as often as the product is in
  the input. It gives none for a product without identifier (the id is missing or false,
  or the product is not a dict), and none for a product with an identifier that is not
  well formed, on which it raises: the prices are not a dict, a price is neither \<open>None\<close> nor
  a number whose hundredth is a double, or the detail answered for the product cannot be
  scanned for a brand. It gives a record, with the identifier and the name of the product,
  for every other product. So the size of the output is the size of the input, minus the
  number of products without identifier, minus the number of products with an identifier
  that are not well formed. A product with an identifier whose detail request fails is
  not dropped: when its prices convert it has a record, with the empty brand, which is the
  record it has with any other answer to the detail request but for the brand. An integer
  price below \<open>100 * 2 ^ 52\<close> in absolute value converts.
\<close>

theorem enrich_output:
  assumes "mset order = mset [0..<length products]"
  shows "mset (process_products_parallel fetch order products)
           = mset (List.map_filter (ProductParser_parse_product fetch) products)
       \<and> length (process_products_parallel fetch order products)
           = length products
             - length (filter (\<lambda>p. ProductParser_parse_product fetch p = None) products)
       \<and> length (process_products_parallel fetch order products)
           = length products
             - length (filter (\<lambda>p. \<not> has_identifier p) products)
             - length (filter (\<lambda>p. has_identifier p \<and> \<not> well_formed fetch p) products)
       \<and> ((case py_get p (ustr ''id'') PNone of Inl e \<Rightarrow> True | Inr pid \<Rightarrow> \<not> py_truthy pid)
          \<longrightarrow> ProductParser_parse_product fetch p = None)
       \<and> (\<not> has_identifier p \<longrightarrow> ProductParser_parse_product fetch p = None)
       \<and> (has_identifier p \<and> \<not> well_formed fetch p
          \<longrightarrow> ProductParser_parse_product fetch p = None)
       \<and> (has_identifier (PDict kvs) \<and> well_formed fetch (PDict kvs)
          \<longrightarrow> (\<exists>made. ProductParser_parse_product fetch (PDict kvs) = Some made
                 \<and> map_of kvs (ustr ''id'') = Some (product_id made)
                 \<and> product_name made = (case map_of kvs (ustr ''name'') of
                                           None \<Rightarrow> PStr [] | Some v \<Rightarrow> v)))
       \<and> (map_of kvs (ustr ''id'') = Some pid \<and> py_truthy pid \<and> prices_convert (PDict kvs)
            \<and> fetch pid = Inl e
          \<longrightarrow> (\<exists>made. ProductParser_parse_product fetch (PDict kvs) = Some made
                 \<and> product_id made = pid \<and> brand made = PStr []))
       \<and> (ProductParser_parse_product other p = Some found
            \<and> fetch (product_id found) = Inl e
          \<longrightarrow> ProductParser_parse_product fetch p = Some (found\<lparr>brand := PStr []\<rparr>))
       \<and> (\<bar>n\<bar> < 100 * 2 ^ 52 \<longrightarrow> price_converts (PInt n))"
proof -
  have kept: "ProductParser_parse_product fetch q = Some (rec\<lparr>brand := PStr []\<rparr>)"
    if found: "ProductParser_parse_product answer q = Some rec"
      and failed: "fetch (product_id rec) = Inl err" for q rec answer err
  proof -
    from parse_product_Some [OF found]
    obtain prices regular promo b where parts:
      "py_get q (ustr ''prices'') (PDict []) = Inr (PDict prices)"
      "price_in_roubles (case map_of prices (ustr ''priceRegular'') of
                           None \<Rightarrow> PNone | Some v \<Rightarrow> v) = Inr regular"
      "price_in_roubles (case map_of prices (ustr ''price'') of
                           None \<Rightarrow> PNone | Some v \<Rightarrow> v) = Inr promo"
      "py_get q (ustr ''id'') PNone = Inr (product_id rec)"
      "py_truthy (product_id rec)"
      "py_get q (ustr ''name'') (PStr []) = Inr (product_name rec)"
      and prices: "regular_price rec = py_or regular (PFloat 0)"
        "promo_price rec = py_or promo (PFloat 0)"
      by blast
    from failed have "ProductParser_extract_brand
                        (LentaAPI_get_product_details fetch (product_id rec)) = Inr PNone"
      by (simp add: LentaAPI_get_product_details_def ProductParser_extract_brand_def)
    from parse_product_intro [OF parts(1-5) this parts(6)] prices
    show ?thesis
      by (simp add: py_or_None)
  qed
  have none: "ProductParser_parse_product fetch q = None
                \<longleftrightarrow> \<not> has_identifier q \<or> (has_identifier q \<and> \<not> well_formed fetch q)" for q
    using parse_product_iff [of fetch q] by blast
  have made: "\<exists>made. ProductParser_parse_product fetch (PDict kvs) = Some made
                 \<and> map_of kvs (ustr ''id'') = Some (product_id made)
                 \<and> product_name made = (case map_of kvs (ustr ''name'') of
                                           None \<Rightarrow> PStr [] | Some v \<Rightarrow> v)"
    if "has_identifier (PDict kvs) \<and> well_formed fetch (PDict kvs)"
  proof -
    from that parse_product_iff [of fetch "PDict kvs"]
    obtain made where "ProductParser_parse_product fetch (PDict kvs) = Some made"
      by blast
    with parse_product_fields [OF this] show ?thesis
      by blast
  qed
  have failed: "\<exists>made. ProductParser_parse_product fetch (PDict kvs) = Some made
                 \<and> product_id made = pid \<and> brand made = PStr []"
    if a: "map_of kvs (ustr ''id'') = Some pid \<and> py_truthy pid \<and> prices_convert (PDict kvs)
            \<and> fetch pid = Inl e"
  proof -
    from a have "detail_scans (LentaAPI_get_product_details fetch pid)"
      by (simp add: LentaAPI_get_product_details_def)
    with a have "has_identifier (PDict kvs) \<and> well_formed fetch (PDict kvs)"
      by simp
    from made [OF this] a obtain made
      where made: "ProductParser_parse_product fetch (PDict kvs) = Some made"
        and pid: "product_id made = pid"
      by auto
    from a pid have "fetch (product_id made) = Inl e"
      by simp
    from kept [OF made this] made
    have "brand made = PStr []"
      by (cases made) simp
    with made pid show ?thesis
      by blast
  qed
  have size: "length (process_products_parallel fetch order products)
           = length products
             - length (filter (\<lambda>p. ProductParser_parse_product fetch p = None) products)"
    by (rule process_products_parallel_length [OF assms])
  have "length (filter (\<lambda>p. ProductParser_parse_product fetch p = None) products)
          = length (filter (\<lambda>p. \<not> has_identifier p) products)
            + length (filter (\<lambda>p. has_identifier p \<and> \<not> well_formed fetch p) products)"
    unfolding none by (rule length_filter_disjoint) blast
  with size have size': "length (process_products_parallel fetch order products)
           = length products
             - length (filter (\<lambda>p. \<not> has_identifier p) products)
             - length (filter (\<lambda>p. has_identifier p \<and> \<not> well_formed fetch p) products)"
    by simp
  have converts: "price_converts (PInt n)" if "\<bar>n\<bar> < 100 * 2 ^ 52"
    using round_double_100_returns [OF that] by simp
  show ?thesis
    using process_products_parallel_mset [OF assms] size size'
      parse_product_no_id [of p fetch] none [of p] made failed
      kept [of other p found e] converts
    by blast
qed

text \<open>
  Three products with the identifiers 7, 0 and 8, the detail request for 7 failing: the
  output has two records, the one of product 7 among them.
\<close>

theorem enrich_output_witness:
  "length (process_products_parallel example_detail_request [2, 0, 1]
     [PDict [(ustr ''id'', PInt 7)], PDict [(ustr ''id'', PInt 0)],
      PDict [(ustr ''id'', PInt 8)]]) = 2
   \<and> ProductParser_parse_product example_detail_request (PDict [(ustr ''id'', PInt 0)]) = None
   \<and> ProductParser_parse_product example_detail_request (PDict [(ustr ''id'', PInt 7)])
       = Some \<lparr>product_id = PInt 7, product_name = PStr [], regular_price = PFloat 0,
               promo_price = PFloat 0, brand = PStr []\<rparr>
   \<and> (\<exists>made. ProductParser_parse_product example_detail_request (PDict [(ustr ''id'', PInt 8)])
                = Some made \<and> product_id made = PInt 8)"
proof -
  let ?products = "[PDict [(ustr ''id'', PInt 7)], PDict [(ustr ''id'', PInt 0)],
                    PDict [(ustr ''id'', PInt 8)]]"
  let ?found = "\<lparr>product_id = PInt 7, product_name = PStr [], regular_price = PFloat 0,
                promo_price = PFloat 0, brand = PStr (ustr ''Pepsi'')\<rparr>"
  have perm: "mset [2, 0, 1 :: nat] = mset [0..<length ?products]"
    by (simp add: upt_rec)
  note enrich = enrich_output [OF perm, where fetch = example_detail_request]
  have ids: "\<not> has_identifier (PDict [(ustr ''id'', PInt 0)])"
    "has_identifier (PDict [(ustr ''id'', PInt 7)])"
    "has_identifier (PDict [(ustr ''id'', PInt 8)])"
    by simp_all
  have formed: "well_formed example_detail_request (PDict [(ustr ''id'', PInt 7)])"
    "well_formed example_detail_request (PDict [(ustr ''id'', PInt 8)])"
    by (simp_all add: LentaAPI_get_product_details_def example_detail_request_def
        is_brand_attribute_def BRAND_ATTRIBUTE_ALIAS_def)
  have none: "ProductParser_parse_product example_detail_request (PDict [(ustr ''id'', PInt 0)])
                = None"
    using enrich [where p = "PDict [(ustr ''id'', PInt 0)]"] ids(1)
    by blast
  have found: "ProductParser_parse_product (\<lambda>pid. example_detail_request (PInt 8))
                 (PDict [(ustr ''id'', PInt 7)]) = Some ?found"
    using parse_product_intro [of "PDict [(ustr ''id'', PInt 7)]" "[]" PNone PNone "PInt 7"
        "\<lambda>pid. example_detail_request (PInt 8)" "PStr (ustr ''Pepsi'')" "PStr []"]
    by (simp add: price_in_roubles_None py_or_def ProductParser_extract_brand_def
        LentaAPI_get_product_details_def example_detail_request_def bind_err_def)
  have failed: "example_detail_request (product_id ?found) = Inl ClientError"
    by (simp add: example_detail_request_def)
  have seven: "ProductParser_parse_product example_detail_request (PDict [(ustr ''id'', PInt 7)])
                 = Some (?found\<lparr>brand := PStr []\<rparr>)"
    using enrich [where p = "PDict [(ustr ''id'', PInt 7)]" and found = ?found
        and other = "\<lambda>pid. example_detail_request (PInt 8)" and e = ClientError]
      found failed
    by blast
  from enrich [where kvs = "[(ustr ''id'', PInt 8)]"] ids(3) formed(2)
  obtain made
    where "ProductParser_parse_product example_detail_request (PDict [(ustr ''id'', PInt 8)])
             = Some made"
      and "map_of [(ustr ''id'', PInt 8)] (ustr ''id'') = Some (product_id made)"
    by blast
  then have eight: "\<exists>made. ProductParser_parse_product example_detail_request
                             (PDict [(ustr ''id'', PInt 8)]) = Some made
                           \<and> product_id made = PInt 8"
    by auto
  have "length (process_products_parallel example_detail_request [2, 0, 1] ?products)
          = length ?products
            - length (filter (\<lambda>p. \<not> has_identifier p) ?products)
            - length (filter (\<lambda>p. has_identifier p
                                   \<and> \<not> well_formed example_detail_request p) ?products)"
    using enrich by blast
  then have "length (process_products_parallel example_detail_request [2, 0, 1] ?products) = 2"
    using ids formed by simp
  with none seven eight show ?thesis
    by simp
qed

section \<open>The claims on the writers\<close>











end
